theory Spec2Isabelle
  imports Main
begin

section \<open>Bytes, panics and the library functions the renderer calls\<close>

text \<open>
  A Go \<^verbatim>\<open>[]byte\<close> (and a Go \<^verbatim>\<open>string\<close>) is a list of 8-bit characters.
  Go's \<^verbatim>\<open>int\<close> is modelled by \<^typ>\<open>int\<close>: every quantity below is bounded by
  the length of the rendered text, so 64-bit wrap-around is out of reach.
\<close>

type_synonym bytes = "char list"

abbreviation NL :: char where "NL \<equiv> CHR 0x0A"
abbreviation ESC :: char where "ESC \<equiv> CHR 0x1B"
abbreviation SP :: char where "SP \<equiv> CHR 0x20"

text \<open>
  The run-time panics of the Go code that the model keeps as values, and the one error
  a render into an in-memory sink can return, that of the lexer: either ends the
  render.
\<close>

datatype panic =
    DivideByZero
  | IndexOutOfRange
  | NegativeRepeatCount
  | NilFunctionCall
  | TypeAssertion
  | LexerError

text \<open>
  Two third-party functions are used by the width measurement:
  \<^verbatim>\<open>ansicsi.Decode\<close> (of which only the size of the control sequence found at the head
  of the buffer is used, 0 when there is none) and \<^verbatim>\<open>uniseg.GraphemeClusterCount\<close>.
  A third, chroma's lexer, is used for code: \<^verbatim>\<open>lexers.Get\<close> for a language tag,
  \<^verbatim>\<open>lexers.Analyse\<close> when the tag is empty, then \<^verbatim>\<open>Tokenise\<close>; none when no lexer is
  found, and the tokens, or none for an error of \<^verbatim>\<open>Tokenise\<close>, when one is. The
  fourth stands for what \<^verbatim>\<open>renderImage\<close> does before it writes: it opens the
  destination of an image (a file or a URL), decodes it, scales it down and encodes it
  as PNG in base 64; none when any of that fails. All four are parameters of the model.
\<close>

datatype TokenType =
    Generic
  | GenericHeading
  | GenericSubheading
  | GenericEmph
  | GenericStrong
  | GenericUnderline
  | LiteralStringHeredoc
  | TableHeaderStyle
  | TableRowStyle
  | TableRowAltStyle
  | OtherToken nat

record ext =
  Decode :: "bytes \<Rightarrow> nat"
  GraphemeClusterCount :: "bytes \<Rightarrow> nat"
  Tokenise :: "bytes \<Rightarrow> bytes \<Rightarrow> (TokenType \<times> bytes) list option option"
  ImageData :: "bytes \<Rightarrow> bytes option"

text \<open>
  Go's \<^verbatim>\<open>utf8.DecodeRune\<close>: the code point at the head of the buffer and its size in
  bytes; \<^verbatim>\<open>(RuneError, 1)\<close> for an invalid or truncated encoding, \<^verbatim>\<open>(RuneError, 0)\<close> for
  the empty buffer.
\<close>

abbreviation RuneError :: nat where "RuneError \<equiv> 0xFFFD"

definition DecodeRune :: "bytes \<Rightarrow> nat \<times> nat" where
  "DecodeRune p =
     (case p of
        [] \<Rightarrow> (RuneError, 0)
      | p0 # ps \<Rightarrow>
          (let b0 = (of_char p0 :: nat) in
           if b0 < 0x80 then (b0, 1)
           else if b0 < 0xC2 \<or> 0xF4 < b0 then (RuneError, 1)
           else
             (let sz = (if b0 < 0xE0 then 2 else if b0 < 0xF0 then 3 else 4 :: nat);
                  lo = (if b0 = 0xE0 then 0xA0 else if b0 = 0xF0 then 0x90 else 0x80 :: nat);
                  hi = (if b0 = 0xED then 0x9F else if b0 = 0xF4 then 0x8F else 0xBF :: nat)
              in if length p < sz then (RuneError, 1)
                 else
                   (let b1 = (of_char (p ! 1) :: nat) in
                    if b1 < lo \<or> hi < b1 then (RuneError, 1)
                    else if sz \<le> 2 then ((b0 mod 0x20) * 0x40 + b1 mod 0x40, 2)
                    else
                      (let b2 = (of_char (p ! 2) :: nat) in
                       if b2 < 0x80 \<or> 0xBF < b2 then (RuneError, 1)
                       else if sz \<le> 3
                         then ((b0 mod 0x10) * 0x1000 + (b1 mod 0x40) * 0x40 + b2 mod 0x40, 3)
                       else
                         (let b3 = (of_char (p ! 3) :: nat) in
                          if b3 < 0x80 \<or> 0xBF < b3 then (RuneError, 1)
                          else ((b0 mod 8) * 0x40000 + (b1 mod 0x40) * 0x1000
                                  + (b2 mod 0x40) * 0x40 + b3 mod 0x40, 4)))))))"

text \<open>Go's \<^verbatim>\<open>unicode.IsSpace\<close>: the code points with the White_Space property.\<close>

definition IsSpace :: "nat \<Rightarrow> bool" where
  "IsSpace c =
     (if c \<le> 0xFF
      then c = 0x09 \<or> c = 0x0A \<or> c = 0x0B \<or> c = 0x0C \<or> c = 0x0D \<or> c = 0x20
             \<or> c = 0x85 \<or> c = 0xA0
      else c = 0x1680 \<or> (0x2000 \<le> c \<and> c \<le> 0x200A) \<or> c = 0x2028 \<or> c = 0x2029
             \<or> c = 0x202F \<or> c = 0x205F \<or> c = 0x3000)"

text \<open>
  Go's \<^verbatim>\<open>%\<close> on integers truncates towards zero, so the remainder takes the sign of
  the dividend; a zero divisor panics and is checked by the caller.
\<close>

definition goRem :: "int \<Rightarrow> int \<Rightarrow> int" where
  "goRem a b = sgn a * (\<bar>a\<bar> mod \<bar>b\<bar>)"

section \<open>The document tree\<close>

text \<open>
  The tree comes from the Markdown parser, an external library. A node carries what the
  renderer reads of it: \<^verbatim>\<open>HasBlankPreviousLines\<close>, \<^verbatim>\<open>LeadingWhitespace\<close> (already
  resolved against the source buffer), the fields of its kind, and its children. A text
  segment, and each line of a block, is held by the bytes it denotes in the source
  buffer; the closure line a HTML block may lack is an option.
\<close>

datatype NodeKind =
    KindDocument
  | KindHeading
  | KindBlockquote
  | KindCodeBlock
  | KindFencedCodeBlock
  | KindHTMLBlock
  | KindLinkReferenceDefinition
  | KindList
  | KindParagraph
  | KindTextBlock
  | KindThematicBreak
  | KindListItem
  | KindTable
  | KindTableHeader
  | KindTableRow
  | KindTableCell
  | KindText
  | KindString
  | KindEmphasis
  | KindCodeSpan
  | KindAutoLink
  | KindImage
  | KindLink
  | KindRawHTML
  | KindWhitespace

datatype LinkReferenceType =
    LinkInline
  | LinkFullReference
  | LinkCollapsedReference
  | LinkShortcutReference

datatype node_data =
    Document
  | Heading (Level: nat) (IsSetext: bool)
  | Blockquote
  | Paragraph
  | TextBlock
  | ThematicBreak
  | Table
  | TableHeader
  | TableRow
  | TableCell
  | Text (Segment: bytes) (SoftLineBreak: bool) (HardLineBreak: bool)
  | String (Value: bytes)
  | Emphasis (Marker: char) (EmLevel: nat)
  | CodeSpan (Backticks: nat)
  | CodeBlock (Lines: "bytes list")
  | FencedCodeBlock (Fence: bytes) (Language: bytes) (Lines: "bytes list")
  | HTMLBlock (Lines: "bytes list") (ClosureLine: "bytes option")
  | LinkReferenceDefinition (Lines: "bytes list")
  | List (Marker: char) (IsOrdered: bool) (ListStart: int)
  | ListItem (Offset: int)
  | AutoLink (Label: bytes)
  | Image (ReferenceType: LinkReferenceType) (Label: bytes) (Destination: bytes) (Title: bytes)
  | Link (ReferenceType: LinkReferenceType) (Label: bytes) (Destination: bytes) (Title: bytes)
  | RawHTML (Segments: "bytes list")
  | Whitespace (Segment: bytes)

datatype node =
  Node (HasBlankPreviousLines: bool) (LeadingWhitespace: bytes) (data: node_data)
       (children: "node list")

fun Kind_of_data :: "node_data \<Rightarrow> NodeKind" where
  "Kind_of_data Document = KindDocument"
| "Kind_of_data (Heading l s) = KindHeading"
| "Kind_of_data Blockquote = KindBlockquote"
| "Kind_of_data Paragraph = KindParagraph"
| "Kind_of_data TextBlock = KindTextBlock"
| "Kind_of_data ThematicBreak = KindThematicBreak"
| "Kind_of_data Table = KindTable"
| "Kind_of_data TableHeader = KindTableHeader"
| "Kind_of_data TableRow = KindTableRow"
| "Kind_of_data TableCell = KindTableCell"
| "Kind_of_data (Text v s h) = KindText"
| "Kind_of_data (String v) = KindString"
| "Kind_of_data (Emphasis m l) = KindEmphasis"
| "Kind_of_data (CodeSpan n) = KindCodeSpan"
| "Kind_of_data (CodeBlock ls) = KindCodeBlock"
| "Kind_of_data (FencedCodeBlock f l ls) = KindFencedCodeBlock"
| "Kind_of_data (HTMLBlock ls c) = KindHTMLBlock"
| "Kind_of_data (LinkReferenceDefinition ls) = KindLinkReferenceDefinition"
| "Kind_of_data (List m b s) = KindList"
| "Kind_of_data (ListItem off) = KindListItem"
| "Kind_of_data (AutoLink l) = KindAutoLink"
| "Kind_of_data (Image t l d ti) = KindImage"
| "Kind_of_data (Link t l d ti) = KindLink"
| "Kind_of_data (RawHTML ss) = KindRawHTML"
| "Kind_of_data (Whitespace v) = KindWhitespace"

definition Kind :: "node \<Rightarrow> NodeKind" where
  "Kind n = Kind_of_data (data n)"

text \<open>
  What a render function reads of a node's surroundings through \<^verbatim>\<open>Parent()\<close>,
  \<^verbatim>\<open>FirstChild()\<close> and \<^verbatim>\<open>PreviousSibling()\<close>: the walk computes it on the way down.
\<close>

record position =
  parentKind :: "NodeKind option"
  parentHasBlankPreviousLines :: bool
  isFirstChild :: bool
  previousSiblingKind :: "NodeKind option"

section \<open>Styles (chroma) and the renderer's state\<close>

datatype Trilean = Pass | Yes | No

text \<open>
  chroma's \<^verbatim>\<open>Colour\<close> is an \<^verbatim>\<open>int32\<close>: 0 is unset, an RGB value \<open>n\<close> is stored as
  \<open>n + 1\<close>.
\<close>

record StyleEntry =
  Colour :: int
  Background :: int
  Border :: int
  Bold :: Trilean
  Italic :: Trilean
  Underline :: Trilean
  NoInherit :: bool

definition zeroStyle :: StyleEntry where
  "zeroStyle = \<lparr>Colour = 0, Background = 0, Border = 0, Bold = Pass, Italic = Pass,
                 Underline = Pass, NoInherit = False\<rparr>"

definition IsZero :: "StyleEntry \<Rightarrow> bool" where
  "IsZero s = (Colour s = 0 \<and> Background s = 0 \<and> Border s = 0 \<and> Bold s = Pass
               \<and> Italic s = Pass \<and> Underline s = Pass \<and> \<not> NoInherit s)"

definition IsSet :: "int \<Rightarrow> bool" where
  "IsSet c = (c \<noteq> 0)"

definition Red :: "int \<Rightarrow> nat" where
  "Red c = nat (((c - 1) div 0x10000) mod 0x100)"

definition Green :: "int \<Rightarrow> nat" where
  "Green c = nat (((c - 1) div 0x100) mod 0x100)"

definition Blue :: "int \<Rightarrow> nat" where
  "Blue c = nat ((c - 1) mod 0x100)"

record blockState =
  bnode :: node
  fresh :: bool

record listState =
  lmarker :: char
  ordered :: bool
  index :: int

record tableState =
  columnWidths :: "nat list"
  cellWidths :: "nat list"
  rowIndex :: nat
  columnIndex :: nat
  cellIndex :: nat
  measuring :: bool

text \<open>
  A \<^verbatim>\<open>*NodeSpan\<close> is an address into the list of allocated spans; \<^verbatim>\<open>nil\<close> is
  \<open>None\<close>.
\<close>

record NodeSpan =
  Start :: int
  End :: int
  SpanNode :: node
  Parent :: "nat option"
  Next :: "nat option"
  Prev :: "nat option"
  Children :: "nat list"

text \<open>
  The \<^verbatim>\<open>Renderer\<close> struct. \<open>spans\<close> is the heap of \<^verbatim>\<open>NodeSpan\<close> cells the renderer
  has allocated (the address of a span is its index); \<^verbatim>\<open>maxImageWidth\<close> and
  \<^verbatim>\<open>contentRoot\<close> are read by the image pipeline only, which is a parameter.
\<close>

record Renderer =
  theme :: "(TokenType \<Rightarrow> StyleEntry) option"
  wordWrap :: int
  hyperlinks :: bool
  images :: bool
  softBreak :: bool
  listStack :: "listState list"
  tableStack :: "tableState list"
  openBlocks :: "blockState list"
  wrapping :: "bool list"
  spanStack :: "nat list"
  lastSpan :: "nat option"
  rootSpan :: "nat option"
  styles :: "StyleEntry list"
  prefixStack :: "bytes list"
  prefix :: bytes
  wordBuffer :: bytes
  lineWidth :: int
  atNewline :: bool
  byteOffset :: int
  inImage :: bool
  spans :: "NodeSpan list"

text \<open>\<^verbatim>\<open>New\<close> with the options applied: every other field has Go's zero value.\<close>

definition New :: "(TokenType \<Rightarrow> StyleEntry) option \<Rightarrow> int \<Rightarrow> bool \<Rightarrow> bool \<Rightarrow> Renderer" where
  "New th width hl sb =
     \<lparr>theme = th, wordWrap = width, hyperlinks = hl, images = False, softBreak = sb,
      listStack = [], tableStack = [], openBlocks = [], wrapping = [], spanStack = [],
      lastSpan = None, rootSpan = None, styles = [], prefixStack = [], prefix = [],
      wordBuffer = [], lineWidth = 0, atNewline = False, byteOffset = 0, inImage = False,
      spans = []\<rparr>"

text \<open>The option \<^verbatim>\<open>WithImages\<close>, as far as the renderer itself reads it.\<close>

definition WithImages :: "bool \<Rightarrow> Renderer \<Rightarrow> Renderer" where
  "WithImages on r = r\<lparr>images := on\<rparr>"

section \<open>The line and prefix writer\<close>

text \<open>
  \<^verbatim>\<open>measureText\<close>: \<open>seg\<close> is \<^verbatim>\<open>buf[start:end]\<close> and \<open>rest\<close> is \<^verbatim>\<open>buf[end:]\<close>; the
  loop runs while \<^verbatim>\<open>start < len(buf)\<close>, that is while \<open>seg @ rest\<close> is not empty.
\<close>

fun measureLoop :: "ext \<Rightarrow> bytes \<Rightarrow> bytes \<Rightarrow> nat \<Rightarrow> nat" where
  "measureLoop E seg rest width =
     (let sz = Decode E rest in
      if sz \<noteq> 0 \<or> rest = [] then
        (let width' = width + GraphemeClusterCount E seg;
             rest' = drop sz rest
         in if rest' = [] then width' else measureLoop E [] rest' width')
      else measureLoop E (seg @ [hd rest]) (tl rest) width)"

definition measureText :: "ext \<Rightarrow> bytes \<Rightarrow> nat" where
  "measureText E buf = (if buf = [] then 0 else measureLoop E [] buf 0)"

text \<open>
  The sink \<open>w\<close> is an in-memory buffer, as in the repository's tests: a write appends
  and never fails, so the \<^verbatim>\<open>err != nil\<close> branches are not taken.
\<close>

definition beginLine :: "Renderer \<Rightarrow> bytes \<Rightarrow> Renderer \<times> bytes" where
  "beginLine r w =
     (if openBlocks r \<noteq> []
         \<and> Kind (bnode (last (openBlocks r))) = KindParagraph
         \<and> \<not> fresh (last (openBlocks r))
      then (r, w)
      else
        (let n = length (prefix r) in
         if n \<noteq> 0 then
           (let nl = (last (prefix r) = NL) in
            (r\<lparr>atNewline := nl,
               lineWidth := (if \<not> nl then int n else lineWidth r),
               byteOffset := byteOffset r + int n\<rparr>,
             w @ prefix r))
         else (r, w @ prefix r)))"

text \<open>\<^verbatim>\<open>r.openBlocks[len(r.openBlocks)-1].fresh = false\<close>, when there is an open block.\<close>

definition markStale :: "Renderer \<Rightarrow> Renderer" where
  "markStale r =
     (if openBlocks r \<noteq> []
      then r\<lparr>openBlocks := butlast (openBlocks r) @ [(last (openBlocks r))\<lparr>fresh := False\<rparr>]\<rparr>
      else r)"

text \<open>
  The padding written before a newline: \<^verbatim>\<open>remaining\<close> spaces when positive, and
  \<^verbatim>\<open>r.wordWrap - (-remaining % r.wordWrap)\<close> spaces when negative. The remainder panics
  on a zero wrap width, and \<^verbatim>\<open>bytes.Repeat\<close> on a negative count.
\<close>

definition padding :: "Renderer \<Rightarrow> nat \<Rightarrow> panic + bytes" where
  "padding r writtenWidth =
     (let remaining = wordWrap r - (lineWidth r + int writtenWidth) in
      if remaining < 0 then
        (if wordWrap r = 0 then Inl DivideByZero
         else
           (let count = wordWrap r - goRem (- remaining) (wordWrap r) in
            if count < 0 then Inl NegativeRepeatCount else Inr (replicate (nat count) SP)))
      else if remaining > 0 then Inr (replicate (nat remaining) SP)
      else Inr [])"

text \<open>
  One round of the loop of \<^verbatim>\<open>write\<close> (named \<open>write'\<close> here, \<open>write\<close> being a
  keyword), for a buffer that is not empty: the text up to
  the first newline, then the padding and the newline itself.
\<close>

definition lineLen :: "bytes \<Rightarrow> nat" where
  "lineLen buf = length (takeWhile (\<lambda>c. c \<noteq> NL) buf)"

definition hasNewline :: "bytes \<Rightarrow> bool" where
  "hasNewline buf = (NL \<in> set buf)"

definition writeStep :: "ext \<Rightarrow> Renderer \<Rightarrow> bytes \<Rightarrow> bytes \<Rightarrow> panic + (Renderer \<times> bytes)" where
  "writeStep E r w buf =
     (let line = take (lineLen buf) buf;
          (r1, w1) = (if atNewline r \<and> measureText E line \<noteq> 0 then beginLine r w else (r, w));
          w2 = w1 @ line;
          writtenWidth = measureText E line
      in if hasNewline buf then
           (case padding r1 writtenWidth of
              Inl p \<Rightarrow> Inl p
            | Inr pad \<Rightarrow>
                Inr (markStale (r1\<lparr>atNewline := True, lineWidth := 0\<rparr>), w2 @ pad @ [NL]))
         else
           (let nl = (atNewline r1 \<and> writtenWidth = 0) in
            Inr (markStale (r1\<lparr>atNewline := nl,
                               lineWidth := (if nl then 0 else lineWidth r1 + int writtenWidth)\<rparr>),
                 w2)))"

definition stepLen :: "bytes \<Rightarrow> nat" where
  "stepLen buf = lineLen buf + (if hasNewline buf then 1 else 0)"

function write' :: "ext \<Rightarrow> Renderer \<Rightarrow> bytes \<Rightarrow> bytes \<Rightarrow> nat \<Rightarrow> panic + (nat \<times> Renderer \<times> bytes)" where
  "write' E r w buf written =
     (if buf = [] then Inr (written, r, w)
      else
        (case writeStep E r w buf of
           Inl p \<Rightarrow> Inl p
         | Inr (r', w') \<Rightarrow> write' E r' w' (drop (stepLen buf) buf) (written + lineLen buf)))"
  by pat_completeness auto
termination
proof (relation "measure (\<lambda>(E, r, w, buf, written). length buf)")
  show "wf (measure (\<lambda>(E, r, w, buf, written). length buf))"
    by simp
next
  fix E :: ext and r :: Renderer and w buf :: bytes and written :: nat
    and x :: "Renderer \<times> bytes" and r' :: Renderer and w' :: bytes
  assume ne: "buf \<noteq> []"
  have "0 < stepLen buf"
  proof (cases buf)
    case Nil
    with ne show ?thesis by simp
  next
    case (Cons c cs)
    then show ?thesis
      by (cases "c = NL") (simp_all add: stepLen_def lineLen_def hasNewline_def)
  qed
  with ne show "((E, r', w', drop (stepLen buf) buf, written + lineLen buf), (E, r, w, buf, written))
        \<in> measure (\<lambda>(E, r, w, buf, written). length buf)"
    by simp
qed


text \<open>Sequencing of steps that may panic.\<close>

definition bindR :: "panic + 'a \<Rightarrow> ('a \<Rightarrow> panic + 'b) \<Rightarrow> panic + 'b" where
  "bindR m f = (case m of Inl p \<Rightarrow> Inl p | Inr x \<Rightarrow> f x)"

text \<open>The callers that drop the byte count of a write (\<^verbatim>\<open>_, err := ...\<close>).\<close>

definition discard :: "panic + (nat \<times> 'a) \<Rightarrow> panic + 'a" where
  "discard m = bindR m (\<lambda>(n, x). Inr x)"

section \<open>The word-wrap buffer\<close>

definition flushWordBuffer :: "ext \<Rightarrow> Renderer \<Rightarrow> bytes \<Rightarrow> panic + (Renderer \<times> bytes)" where
  "flushWordBuffer E r w =
     (let buf = wordBuffer r;
          wordWidth = measureText E buf
      in bindR
           (if lineWidth r > 0 \<and> lineWidth r + int wordWidth \<ge> wordWrap r
            then bindR (write' E r w [NL] 0)
                   (\<lambda>(n, r1, w1). Inr (r1\<lparr>byteOffset := byteOffset r1 + 1\<rparr>, w1))
            else Inr (r, w))
           (\<lambda>(r2, w2). bindR (write' E r2 w2 buf 0)
                          (\<lambda>(n, r3, w3). Inr (r3\<lparr>wordBuffer := []\<rparr>, w3))))"

definition WordWrap :: "Renderer \<Rightarrow> bool" where
  "WordWrap r = (wordWrap r > 0 \<and> wrapping r \<noteq> [] \<and> last (wrapping r))"

definition PushWordWrap :: "Renderer \<Rightarrow> bool \<Rightarrow> Renderer" where
  "PushWordWrap r wrap = r\<lparr>wrapping := wrapping r @ [wrap]\<rparr>"

definition PopWordWrap :: "Renderer \<Rightarrow> panic + Renderer" where
  "PopWordWrap r =
     (if wrapping r = [] then Inl IndexOutOfRange
      else Inr (r\<lparr>wrapping := butlast (wrapping r)\<rparr>))"

text \<open>
  One round of the wrapping loop of \<^verbatim>\<open>Write\<close>, for a buffer that is not empty: a
  white-space rune flushes the word buffer and is written; any other rune is buffered.
  Either way the byte offset advances by the size of the rune.
\<close>

definition runeLen :: "bytes \<Rightarrow> nat" where
  "runeLen buf = snd (DecodeRune buf)"

definition wrapStep :: "ext \<Rightarrow> Renderer \<Rightarrow> bytes \<Rightarrow> bytes \<Rightarrow> panic + (Renderer \<times> bytes)" where
  "wrapStep E r w buf =
     (let c = fst (DecodeRune buf);
          sz = runeLen buf
      in bindR
           (if IsSpace c
            then bindR (flushWordBuffer E r w)
                   (\<lambda>(r1, w1). discard (write' E r1 w1 (take sz buf) 0))
            else Inr (r\<lparr>wordBuffer := wordBuffer r @ take sz buf\<rparr>, w))
           (\<lambda>(r2, w2). Inr (r2\<lparr>byteOffset := byteOffset r2 + int sz\<rparr>, w2)))"

function wrapLoop :: "ext \<Rightarrow> Renderer \<Rightarrow> bytes \<Rightarrow> bytes \<Rightarrow> nat \<Rightarrow> panic + (nat \<times> Renderer \<times> bytes)" where
  "wrapLoop E r w buf written =
     (if buf = [] then Inr (written, r, w)
      else
        (case wrapStep E r w buf of
           Inl p \<Rightarrow> Inl p
         | Inr (r', w') \<Rightarrow> wrapLoop E r' w' (drop (runeLen buf) buf) (written + runeLen buf)))"
  by pat_completeness auto
termination
proof (relation "measure (\<lambda>(E, r, w, buf, written). length buf)")
  show "wf (measure (\<lambda>(E, r, w, buf, written). length buf))"
    by simp
next
  fix E :: ext and r :: Renderer and w buf :: bytes and written :: nat
    and x :: "Renderer \<times> bytes" and r' :: Renderer and w' :: bytes
  assume ne: "buf \<noteq> []"
  then have "0 < runeLen buf"
    by (cases buf) (simp_all add: runeLen_def DecodeRune_def Let_def)
  with ne show "((E, r', w', drop (runeLen buf) buf, written + runeLen buf), (E, r, w, buf, written))
        \<in> measure (\<lambda>(E, r, w, buf, written). length buf)"
    by simp
qed

definition Write :: "ext \<Rightarrow> Renderer \<Rightarrow> bytes \<Rightarrow> bytes \<Rightarrow> panic + (nat \<times> Renderer \<times> bytes)" where
  "Write E r w buf =
     (if \<not> WordWrap r then
        bindR (if wordBuffer r \<noteq> [] then flushWordBuffer E r w else Inr (r, w))
          (\<lambda>(r1, w1). bindR (write' E r1 w1 buf 0)
             (\<lambda>(n, r2, w2). Inr (n, r2\<lparr>byteOffset := byteOffset r2 + int n\<rparr>, w2)))
      else wrapLoop E r w buf 0)"

definition WriteByte :: "ext \<Rightarrow> Renderer \<Rightarrow> bytes \<Rightarrow> char \<Rightarrow> panic + (Renderer \<times> bytes)" where
  "WriteByte E r w c = discard (Write E r w [c])"

definition WriteString :: "ext \<Rightarrow> Renderer \<Rightarrow> bytes \<Rightarrow> bytes \<Rightarrow> panic + (nat \<times> Renderer \<times> bytes)" where
  "WriteString E r w s = Write E r w s"

text \<open>Go's \<^verbatim>\<open>utf8.EncodeRune\<close>.\<close>

definition EncodeRune :: "nat \<Rightarrow> bytes" where
  "EncodeRune c =
     (if c < 0x80 then [char_of c]
      else if c < 0x800 then [char_of (0xC0 + c div 0x40), char_of (0x80 + c mod 0x40)]
      else if 0x10FFFF < c \<or> (0xD800 \<le> c \<and> c \<le> 0xDFFF) then [CHR 0xEF, CHR 0xBF, CHR 0xBD]
      else if c < 0x10000
        then [char_of (0xE0 + c div 0x1000), char_of (0x80 + (c div 0x40) mod 0x40),
              char_of (0x80 + c mod 0x40)]
      else [char_of (0xF0 + c div 0x40000), char_of (0x80 + (c div 0x1000) mod 0x40),
            char_of (0x80 + (c div 0x40) mod 0x40), char_of (0x80 + c mod 0x40)])"

definition WriteRune :: "ext \<Rightarrow> Renderer \<Rightarrow> bytes \<Rightarrow> nat \<Rightarrow> panic + (nat \<times> Renderer \<times> bytes)" where
  "WriteRune E r w c = Write E r w (EncodeRune c)"

section \<open>The prefix stack\<close>

definition PushPrefix :: "Renderer \<Rightarrow> bytes \<Rightarrow> Renderer" where
  "PushPrefix r p = r\<lparr>prefixStack := prefixStack r @ [p], prefix := prefix r @ p\<rparr>"

definition PushIndent :: "Renderer \<Rightarrow> nat \<Rightarrow> Renderer" where
  "PushIndent r amount = PushPrefix r (replicate amount SP)"

definition PopPrefix :: "Renderer \<Rightarrow> panic + Renderer" where
  "PopPrefix r =
     (if prefixStack r = [] then Inl IndexOutOfRange
      else if length (prefix r) < length (last (prefixStack r)) then Inl IndexOutOfRange
      else Inr (r\<lparr>prefix := take (length (prefix r) - length (last (prefixStack r))) (prefix r),
                  prefixStack := butlast (prefixStack r)\<rparr>))"

section \<open>The span tree\<close>

definition OpenSpan :: "Renderer \<Rightarrow> node \<Rightarrow> Renderer" where
  "OpenSpan r nd =
     (let a = length (spans r);
          span = \<lparr>Start = byteOffset r, End = 0, SpanNode = nd, Parent = None, Next = None,
                  Prev = None, Children = []\<rparr>;
          (span1, h1, root1) =
            (if spanStack r \<noteq> [] then
               (let p = last (spanStack r) in
                (span\<lparr>Parent := Some p\<rparr>,
                 (spans r)[p := (spans r ! p)\<lparr>Children := Children (spans r ! p) @ [a]\<rparr>],
                 rootSpan r))
             else (span, spans r, Some a));
          (span2, h2) =
            (case lastSpan r of
               Some l \<Rightarrow> (span1\<lparr>Prev := Some l\<rparr>, h1[l := (h1 ! l)\<lparr>Next := Some a\<rparr>])
             | None \<Rightarrow> (span1, h1))
      in r\<lparr>spans := h2 @ [span2], rootSpan := root1, lastSpan := Some a,
           spanStack := spanStack r @ [a]\<rparr>)"

definition CloseSpan :: "Renderer \<Rightarrow> panic + Renderer" where
  "CloseSpan r =
     (if spanStack r = [] then Inl IndexOutOfRange
      else
        (let a = last (spanStack r) in
         Inr (r\<lparr>spanStack := butlast (spanStack r),
                 spans := (spans r)[a := (spans r ! a)\<lparr>End := byteOffset r\<rparr>]\<rparr>)))"


section \<open>The escape and style codec\<close>

text \<open>
  The SGR commands \<^verbatim>\<open>writeDelta\<close> can emit, and the command text of each as
  \<^verbatim>\<open>writeSGR\<close> receives it.
\<close>

datatype sgr =
    SgrReset
  | SgrBackground nat nat nat
  | SgrForeground nat nat nat
  | SgrBold bool
  | SgrUnderline bool
  | SgrItalic bool

fun showNat :: "nat \<Rightarrow> bytes" where
  "showNat n =
     (if n < 10 then [char_of (48 + n)] else showNat (n div 10) @ [char_of (48 + n mod 10)])"

fun sgrCommand :: "sgr \<Rightarrow> bytes" where
  "sgrCommand SgrReset = ''0''"
| "sgrCommand (SgrBackground cr cg cb) =
     ''48'' @ '';2;'' @ showNat cr @ '';'' @ showNat cg @ '';'' @ showNat cb"
| "sgrCommand (SgrForeground cr cg cb) =
     ''38'' @ '';2;'' @ showNat cr @ '';'' @ showNat cg @ '';'' @ showNat cb"
| "sgrCommand (SgrBold on) = (if on then ''1'' else ''22'')"
| "sgrCommand (SgrUnderline on) = (if on then ''4'' else ''24'')"
| "sgrCommand (SgrItalic on) = (if on then ''3'' else ''23'')"

definition writeSGR :: "ext \<Rightarrow> Renderer \<Rightarrow> bytes \<Rightarrow> bytes \<Rightarrow> panic + (Renderer \<times> bytes)" where
  "writeSGR E r w command = discard (Write E r w ([ESC, CHR ''[''] @ command @ ''m''))"

fun writeSGRs :: "ext \<Rightarrow> Renderer \<Rightarrow> bytes \<Rightarrow> bytes list \<Rightarrow> panic + (Renderer \<times> bytes)" where
  "writeSGRs E r w [] = Inr (r, w)"
| "writeSGRs E r w (c # cs) =
     (case writeSGR E r w c of Inl p \<Rightarrow> Inl p | Inr (r', w') \<Rightarrow> writeSGRs E r' w' cs)"

text \<open>The commands of \<^verbatim>\<open>writeDelta\<close>, in the order it writes them.\<close>

definition deltaSGR :: "StyleEntry \<Rightarrow> StyleEntry \<Rightarrow> sgr list" where
  "deltaSGR base new =
     (if IsZero new then [SgrReset]
      else
        (if IsSet (Background new) \<and> (IsZero base \<or> Background new \<noteq> Background base)
         then [SgrBackground (Red (Background new)) (Green (Background new)) (Blue (Background new))]
         else [])
        @ (if IsSet (Colour new) \<and> (IsZero base \<or> Colour new \<noteq> Colour base)
           then [SgrForeground (Red (Colour new)) (Green (Colour new)) (Blue (Colour new))]
           else [])
        @ (if IsZero base \<or> Bold new \<noteq> Bold base then [SgrBold (Bold new = Yes)] else [])
        @ (if IsZero base \<or> Underline new \<noteq> Underline base
           then [SgrUnderline (Underline new = Yes)] else [])
        @ (if IsZero base \<or> Italic new \<noteq> Italic base
           then [SgrItalic (Italic new = Yes)] else []))"

definition writeDelta :: "ext \<Rightarrow> Renderer \<Rightarrow> bytes \<Rightarrow> StyleEntry \<Rightarrow> StyleEntry \<Rightarrow> panic + (Renderer \<times> bytes)" where
  "writeDelta E r w base new = writeSGRs E r w (map sgrCommand (deltaSGR base new))"

text \<open>
  \<^verbatim>\<open>PushStyle\<close>: the token's theme entry, its unset bold, underline and italic taken
  from the top of the stack.
\<close>

definition topStyle :: "StyleEntry list \<Rightarrow> StyleEntry" where
  "topStyle ss = (if ss \<noteq> [] then last ss else zeroStyle)"

definition resolveStyle :: "StyleEntry \<Rightarrow> StyleEntry \<Rightarrow> StyleEntry" where
  "resolveStyle base tokenStyle =
     tokenStyle\<lparr>Bold := (if Bold tokenStyle = Pass then Bold base else Bold tokenStyle),
                Underline := (if Underline tokenStyle = Pass then Underline base
                              else Underline tokenStyle),
                Italic := (if Italic tokenStyle = Pass then Italic base else Italic tokenStyle)\<rparr>"

definition PushStyle :: "ext \<Rightarrow> Renderer \<Rightarrow> bytes \<Rightarrow> TokenType \<Rightarrow> panic + (Renderer \<times> bytes)" where
  "PushStyle E r w token =
     (case theme r of
        None \<Rightarrow> Inr (r, w)
      | Some th \<Rightarrow>
          (if IsZero (th token) then Inr (r, w)
           else
             (let base = topStyle (styles r);
                  tokenStyle = resolveStyle base (th token)
              in bindR (writeDelta E r w base tokenStyle)
                   (\<lambda>(r1, w1). Inr (r1\<lparr>styles := styles r1 @ [tokenStyle]\<rparr>, w1)))))"

definition PopStyle :: "ext \<Rightarrow> Renderer \<Rightarrow> bytes \<Rightarrow> panic + (Renderer \<times> bytes)" where
  "PopStyle E r w =
     (case theme r of
        None \<Rightarrow> Inr (r, w)
      | Some th \<Rightarrow>
          (let new = (if length (styles r) > 1 then styles r ! (length (styles r) - 2)
                      else zeroStyle)
           in if styles r = [] then Inl IndexOutOfRange
              else bindR (writeDelta E r w (last (styles r)) new)
                     (\<lambda>(r1, w1).
                        if styles r1 = [] then Inl IndexOutOfRange
                        else Inr (r1\<lparr>styles := butlast (styles r1)\<rparr>, w1))))"

section \<open>Blocks\<close>

definition setFresh :: "Renderer \<Rightarrow> Renderer" where
  "setFresh r =
     r\<lparr>openBlocks := butlast (openBlocks r) @ [(last (openBlocks r))\<lparr>fresh := True\<rparr>]\<rparr>"

definition OpenBlock :: "ext \<Rightarrow> position \<Rightarrow> node \<Rightarrow> Renderer \<Rightarrow> bytes \<Rightarrow> panic + (Renderer \<times> bytes)" where
  "OpenBlock E pos nd r w =
     (let r1 = OpenSpan r nd;
          r2 = r1\<lparr>openBlocks := openBlocks r1 @ [\<lparr>bnode = nd, fresh = True\<rparr>]\<rparr>;
          hasBlankPreviousLines =
            (if parentKind pos \<noteq> None \<and> isFirstChild pos
                \<and> (parentKind pos = Some KindDocument \<or> parentKind pos = Some KindListItem
                     \<or> parentHasBlankPreviousLines pos)
             then False else HasBlankPreviousLines nd)
      in bindR (if hasBlankPreviousLines then WriteByte E r2 w NL else Inr (r2, w))
           (\<lambda>(r3, w3).
              bindR (if LeadingWhitespace nd \<noteq> []
                     then discard (Write E r3 w3 (LeadingWhitespace nd)) else Inr (r3, w3))
                (\<lambda>(r4, w4). Inr (setFresh r4, w4))))"

definition CloseBlock :: "ext \<Rightarrow> Renderer \<Rightarrow> bytes \<Rightarrow> panic + (Renderer \<times> bytes)" where
  "CloseBlock E r w =
     bindR (if \<not> atNewline r then WriteByte E r w NL else Inr (r, w))
       (\<lambda>(r1, w1).
          if openBlocks r1 = [] then Inl IndexOutOfRange
          else bindR (CloseSpan (r1\<lparr>openBlocks := butlast (openBlocks r1)\<rparr>))
                 (\<lambda>r2. Inr (r2, w1)))"


section \<open>The render functions\<close>

text \<open>
  A render function is called on entering and on leaving a node. It returns whether the
  walk is to skip the node's children (\<^verbatim>\<open>WalkSkipChildren\<close>) or not
  (\<^verbatim>\<open>WalkContinue\<close>); \<^verbatim>\<open>WalkStop\<close> is returned with an error only, and the in-memory
  sink raises none.
\<close>

type_synonym rendered = "panic + (bool \<times> Renderer \<times> bytes)"

definition continue :: "panic + (Renderer \<times> bytes) \<Rightarrow> rendered" where
  "continue m = bindR m (\<lambda>(r, w). Inr (False, r, w))"

definition RenderDocument :: "ext \<Rightarrow> node \<Rightarrow> Renderer \<Rightarrow> bytes \<Rightarrow> bool \<Rightarrow> rendered" where
  "RenderDocument E nd r w enter =
     (let r0 = r\<lparr>listStack := [], prefixStack := [], prefix := [], wrapping := [True],
                 atNewline := False\<rparr>
      in if enter then
           continue (PushStyle E ((OpenSpan r0 nd)\<lparr>styles := []\<rparr>) w Generic)
         else
           continue (bindR (PopStyle E r0 w)
                      (\<lambda>(r1, w1). bindR (CloseSpan (r1\<lparr>styles := []\<rparr>)) (\<lambda>r2. Inr (r2, w1)))))"

definition RenderHeading :: "ext \<Rightarrow> position \<Rightarrow> node \<Rightarrow> Renderer \<Rightarrow> bytes \<Rightarrow> bool \<Rightarrow> rendered" where
  "RenderHeading E pos nd r w enter =
     (if enter then
        continue
          (bindR (OpenBlock E pos nd r w)
             (\<lambda>(r1, w1).
                bindR (PushStyle E (PushWordWrap r1 False) w1
                         (if Level (data nd) > 2 then GenericSubheading else GenericHeading))
                  (\<lambda>(r2, w2).
                     if \<not> IsSetext (data nd) then
                       bindR (discard (WriteString E r2 w2 (replicate (Level (data nd)) (CHR ''#''))))
                         (\<lambda>(r3, w3). WriteByte E r3 w3 SP)
                     else Inr (r2, w2))))
      else
        continue
          (bindR
             (if IsSetext (data nd) then
                bindR (if \<not> atNewline r then WriteByte E r w NL else Inr (r, w))
                  (\<lambda>(r1, w1).
                     discard (WriteString E r1 w1
                                (if Level (data nd) = 2 then ''---'' else ''==='')))
              else Inr (r, w))
             (\<lambda>(r2, w2).
                bindR (PopStyle E r2 w2)
                  (\<lambda>(r3, w3).
                     bindR (WriteByte E r3 w3 NL)
                       (\<lambda>(r4, w4). bindR (PopWordWrap r4) (\<lambda>r5. CloseBlock E r5 w4))))))"

definition RenderBlockquote :: "ext \<Rightarrow> position \<Rightarrow> node \<Rightarrow> Renderer \<Rightarrow> bytes \<Rightarrow> bool \<Rightarrow> rendered" where
  "RenderBlockquote E pos nd r w enter =
     (if enter then
        continue
          (bindR (OpenBlock E pos nd r w)
             (\<lambda>(r1, w1).
                bindR (PushStyle E r1 w1 GenericEmph)
                  (\<lambda>(r2, w2).
                     bindR (discard (WriteString E r2 w2 ''> ''))
                       (\<lambda>(r3, w3). Inr (PushPrefix r3 ''> '', w3)))))
      else
        continue
          (bindR (PopPrefix r)
             (\<lambda>r1. bindR (PopStyle E r1 w) (\<lambda>(r2, w2). CloseBlock E r2 w2))))"

definition RenderParagraph :: "ext \<Rightarrow> position \<Rightarrow> node \<Rightarrow> Renderer \<Rightarrow> bytes \<Rightarrow> bool \<Rightarrow> rendered" where
  "RenderParagraph E pos nd r w enter =
     (if enter then
        continue
          (bindR
             (if \<not> HasBlankPreviousLines nd
                 \<and> (previousSiblingKind pos = Some KindParagraph
                      \<or> previousSiblingKind pos = Some KindBlockquote)
              then WriteByte E r w NL else Inr (r, w))
             (\<lambda>(r1, w1).
                bindR (OpenBlock E pos nd r1 w1) (\<lambda>(r2, w2). Inr (PushWordWrap r2 True, w2))))
      else
        continue (bindR (PopWordWrap r) (\<lambda>r1. CloseBlock E r1 w)))"

definition RenderTextBlock :: "ext \<Rightarrow> position \<Rightarrow> node \<Rightarrow> Renderer \<Rightarrow> bytes \<Rightarrow> bool \<Rightarrow> rendered" where
  "RenderTextBlock E pos nd r w enter =
     (if enter then
        continue (bindR (OpenBlock E pos nd r w) (\<lambda>(r1, w1). Inr (PushWordWrap r1 True, w1)))
      else
        continue (bindR (PopWordWrap r) (\<lambda>r1. CloseBlock E r1 w)))"

definition RenderThematicBreak :: "ext \<Rightarrow> position \<Rightarrow> node \<Rightarrow> Renderer \<Rightarrow> bytes \<Rightarrow> bool \<Rightarrow> rendered" where
  "RenderThematicBreak E pos nd r w enter =
     (if \<not> enter then continue (CloseBlock E r w)
      else
        continue
          (bindR (OpenBlock E pos nd r w)
             (\<lambda>(r1, w1). discard (WriteString E r1 w1 (''***'' @ [NL])))))"

definition RenderText :: "ext \<Rightarrow> node \<Rightarrow> Renderer \<Rightarrow> bytes \<Rightarrow> bool \<Rightarrow> rendered" where
  "RenderText E nd r w enter =
     (if \<not> enter then continue (bindR (CloseSpan r) (\<lambda>r1. Inr (r1, w)))
      else
        continue
          (bindR (discard (Write E (OpenSpan r nd) w (Segment (data nd))))
             (\<lambda>(r1, w1).
                if HardLineBreak (data nd) then discard (WriteString E r1 w1 [CHR 0x5C, NL])
                else if SoftLineBreak (data nd)
                  then WriteByte E r1 w1 (if softBreak r1 then SP else NL)
                else Inr (r1, w1))))"

definition RenderString :: "ext \<Rightarrow> node \<Rightarrow> Renderer \<Rightarrow> bytes \<Rightarrow> bool \<Rightarrow> rendered" where
  "RenderString E nd r w enter =
     (if \<not> enter then continue (bindR (CloseSpan r) (\<lambda>r1. Inr (r1, w)))
      else continue (discard (Write E (OpenSpan r nd) w (Value (data nd)))))"

definition RenderEmphasis :: "ext \<Rightarrow> node \<Rightarrow> Renderer \<Rightarrow> bytes \<Rightarrow> bool \<Rightarrow> rendered" where
  "RenderEmphasis E nd r w enter =
     continue
       (bindR (if enter then Inr (OpenSpan r nd) else CloseSpan r)
          (\<lambda>r1. discard (WriteString E r1 w
                            (replicate (EmLevel (data nd)) (Marker (data nd))))))"

subsection \<open>Code spans\<close>

text \<open>
  \<^verbatim>\<open>util.FirstNonSpacePosition\<close> of the parser library: the index of the first byte
  that is neither a space nor a tab, none (\<^verbatim>\<open>-1\<close>) when a newline or the end comes
  first.
\<close>

fun FirstNonSpacePosition :: "bytes \<Rightarrow> nat option" where
  "FirstNonSpacePosition [] = None"
| "FirstNonSpacePosition (c # cs) =
     (if c = SP \<or> c = CHR 0x09 then map_option Suc (FirstNonSpacePosition cs)
      else if c = NL then None
      else Some 0)"

text \<open>
  The loop of \<^verbatim>\<open>shouldPadCodeSpan\<close>: \<open>text\<close> is the segment of the current child,
  \<open>rest\<close> the segments of its next siblings. It returns the segment the loop stops at,
  none when \<^verbatim>\<open>allWhitespace\<close> is still true at the end.
\<close>

fun scanSegments :: "bytes \<Rightarrow> bytes list \<Rightarrow> bytes option" where
  "scanSegments text [] = (if FirstNonSpacePosition text \<noteq> None then Some text else None)"
| "scanSegments text (t # ts) =
     (if FirstNonSpacePosition text \<noteq> None then Some text else scanSegments t ts)"

definition shouldPadCodeSpan :: "bytes list \<Rightarrow> bool" where
  "shouldPadCodeSpan segs =
     (case segs of
        [] \<Rightarrow> False
      | text # rest \<Rightarrow>
          (let firstChar = (if length text > 0 then hd text else CHR 0x00) in
           case scanSegments text rest of
             None \<Rightarrow> False
           | Some text' \<Rightarrow>
               (let lastChar = (if length text' > 0 then last text' else CHR 0x00) in
                firstChar = CHR 0x60 \<or> firstChar = SP \<or> lastChar = CHR 0x60 \<or> lastChar = SP)))"

text \<open>The segments of the children of a code span; a child that is no text node fails
  the type assertion \<^verbatim>\<open>c.(*ast.Text)\<close>.\<close>

fun textSegments :: "node list \<Rightarrow> panic + bytes list" where
  "textSegments [] = Inr []"
| "textSegments (c # cs) =
     (case data c of
        Text v s h \<Rightarrow> (case textSegments cs of Inl p \<Rightarrow> Inl p | Inr vs \<Rightarrow> Inr (v # vs))
      | _ \<Rightarrow> Inl TypeAssertion)"

fun writeTokens :: "ext \<Rightarrow> Renderer \<Rightarrow> bytes \<Rightarrow> (TokenType \<times> bytes) list \<Rightarrow> panic + (Renderer \<times> bytes)" where
  "writeTokens E r w [] = Inr (r, w)"
| "writeTokens E r w ((ty, v) # ts) =
     (case bindR (PushStyle E r w ty)
             (\<lambda>(r1, w1). bindR (discard (WriteString E r1 w1 v)) (\<lambda>(r2, w2). PopStyle E r2 w2)) of
        Inl p \<Rightarrow> Inl p
      | Inr (r3, w3) \<Rightarrow> writeTokens E r3 w3 ts)"

definition writeCode :: "ext \<Rightarrow> Renderer \<Rightarrow> bytes \<Rightarrow> bytes \<Rightarrow> bytes \<Rightarrow> panic + (Renderer \<times> bytes)" where
  "writeCode E r w language code =
     (if theme r = None then discard (WriteString E r w code)
      else
        (case Tokenise E language code of
           None \<Rightarrow> discard (WriteString E r w code)
         | Some None \<Rightarrow> Inl LexerError
         | Some (Some toks) \<Rightarrow> writeTokens E r w toks))"

definition RenderCodeSpan :: "ext \<Rightarrow> node \<Rightarrow> Renderer \<Rightarrow> bytes \<Rightarrow> bool \<Rightarrow> rendered" where
  "RenderCodeSpan E nd r w enter =
     (if \<not> enter then
        continue (bindR (PopWordWrap r) (\<lambda>r1. bindR (CloseSpan r1) (\<lambda>r2. Inr (r2, w))))
      else
        bindR (textSegments (children nd))
          (\<lambda>segs.
             (let r0 = PushWordWrap (OpenSpan r nd) False;
                  delimiter = replicate (Backticks (data nd)) (CHR 0x60);
                  pad = shouldPadCodeSpan segs
              in bindR (discard (Write E r0 w delimiter))
                   (\<lambda>(r1, w1).
                      bindR (if pad then WriteByte E r1 w1 SP else Inr (r1, w1))
                        (\<lambda>(r2, w2).
                           bindR (writeCode E r2 w2 [] (concat segs))
                             (\<lambda>(r3, w3).
                                bindR (if pad then WriteByte E r3 w3 SP else Inr (r3, w3))
                                  (\<lambda>(r4, w4).
                                     bindR (discard (Write E r4 w4 delimiter))
                                       (\<lambda>(r5, w5). Inr (True, r5, w5)))))))))"


subsection \<open>Tables\<close>

text \<open>The box-drawing runes of \<^verbatim>\<open>borders\<close>, by their accessor.\<close>

definition topLeft :: nat where "topLeft = 0x256D"
definition topJoin :: nat where "topJoin = 0x252C"
definition topRight :: nat where "topRight = 0x256E"
definition middleLeft :: nat where "middleLeft = 0x251C"
definition middleJoin :: nat where "middleJoin = 0x253C"
definition middleRight :: nat where "middleRight = 0x2524"
definition bottomLeft :: nat where "bottomLeft = 0x2570"
definition bottomJoin :: nat where "bottomJoin = 0x2534"
definition bottomRight :: nat where "bottomRight = 0x256F"
definition vertical :: nat where "vertical = 0x2502"
definition horizontal :: bytes where "horizontal = EncodeRune 0x2500"

definition updTable :: "(tableState \<Rightarrow> tableState) \<Rightarrow> Renderer \<Rightarrow> Renderer" where
  "updTable f r = r\<lparr>tableStack := butlast (tableStack r) @ [f (last (tableStack r))]\<rparr>"

fun borderColumns :: "ext \<Rightarrow> Renderer \<Rightarrow> bytes \<Rightarrow> nat \<Rightarrow> bool \<Rightarrow> nat list \<Rightarrow> panic + (Renderer \<times> bytes)" where
  "borderColumns E r w join first [] = Inr (r, w)"
| "borderColumns E r w join first (width # widths) =
     (case bindR (if \<not> first then discard (WriteRune E r w join) else Inr (r, w))
             (\<lambda>(r1, w1). discard (WriteString E r1 w1 (concat (replicate width horizontal)))) of
        Inl p \<Rightarrow> Inl p
      | Inr (r2, w2) \<Rightarrow> borderColumns E r2 w2 join False widths)"

definition renderTableBorder :: "ext \<Rightarrow> Renderer \<Rightarrow> bytes \<Rightarrow> nat \<Rightarrow> nat \<Rightarrow> nat \<Rightarrow> panic + (Renderer \<times> bytes)" where
  "renderTableBorder E r w left join right =
     (if tableStack r = [] then Inl IndexOutOfRange
      else
        bindR (discard (WriteRune E r w left))
          (\<lambda>(r1, w1).
             bindR (borderColumns E r1 w1 join True (columnWidths (last (tableStack r))))
               (\<lambda>(r2, w2).
                  bindR (discard (WriteRune E r2 w2 right)) (\<lambda>(r3, w3). WriteByte E r3 w3 NL))))"

text \<open>
  \<^verbatim>\<open>RenderTable\<close>. \<open>measured\<close> is the result of the measuring pass over the cells
  (\<open>measureRows\<close> below), which runs after \<^verbatim>\<open>OpenBlock\<close> and reads the renderer's
  options only.
\<close>

definition RenderTable :: "ext \<Rightarrow> position \<Rightarrow> node \<Rightarrow> Renderer \<Rightarrow> bytes \<Rightarrow> bool \<Rightarrow> panic + (nat list \<times> nat list) \<Rightarrow> rendered" where
  "RenderTable E pos nd r w enter measured =
     (if \<not> enter then
        continue
          (bindR (renderTableBorder E r w bottomLeft bottomJoin bottomRight)
             (\<lambda>(r1, w1). CloseBlock E (r1\<lparr>tableStack := butlast (tableStack r1)\<rparr>) w1))
      else
        continue
          (bindR (OpenBlock E pos nd r w)
             (\<lambda>(r1, w1).
                bindR measured
                  (\<lambda>(cws, cellws).
                     Inr (r1\<lparr>tableStack := tableStack r1 @
                               [\<lparr>columnWidths = cws, cellWidths = cellws, rowIndex = 0,
                                 columnIndex = 0, cellIndex = 0, measuring = False\<rparr>]\<rparr>, w1)))))"

definition nextRow :: "tableState \<Rightarrow> tableState" where
  "nextRow st = st\<lparr>columnIndex := 0, rowIndex := rowIndex st + 1\<rparr>"

definition RenderTableHeader :: "ext \<Rightarrow> Renderer \<Rightarrow> bytes \<Rightarrow> bool \<Rightarrow> rendered" where
  "RenderTableHeader E r w enter =
     (if enter then
        continue
          (bindR (renderTableBorder E r w topLeft topJoin topRight)
             (\<lambda>(r1, w1). discard (WriteRune E r1 w1 vertical)))
      else
        continue
          (bindR (discard (WriteRune E r w vertical))
             (\<lambda>(r1, w1).
                bindR (WriteByte E r1 w1 NL)
                  (\<lambda>(r2, w2).
                     bindR (renderTableBorder E r2 w2 middleLeft middleJoin middleRight)
                       (\<lambda>(r3, w3). Inr (updTable nextRow r3, w3))))))"

definition RenderTableRow :: "ext \<Rightarrow> Renderer \<Rightarrow> bytes \<Rightarrow> bool \<Rightarrow> rendered" where
  "RenderTableRow E r w enter =
     (if tableStack r = [] then Inl IndexOutOfRange
      else
        continue
          (bindR (discard (WriteRune E r w vertical))
             (\<lambda>(r1, w1).
                if \<not> enter then
                  bindR (discard (WriteRune E r1 w1 0x0A))
                    (\<lambda>(r2, w2). Inr (updTable nextRow r2, w2))
                else Inr (r1, w1))))"

definition RenderTableCell :: "ext \<Rightarrow> Renderer \<Rightarrow> bytes \<Rightarrow> bool \<Rightarrow> rendered" where
  "RenderTableCell E r w enter =
     (if tableStack r = [] then Inl IndexOutOfRange
      else
        (let st = last (tableStack r) in
         if measuring st then Inr (False, r, w)
         else if enter then
           continue
             (bindR (if rowIndex st = 0 \<and> columnIndex st > 0
                     then discard (WriteRune E r w vertical) else Inr (r, w))
                (\<lambda>(r1, w1).
                   bindR (PushStyle E r1 w1
                            (if rowIndex st = 0 then TableHeaderStyle
                             else if rowIndex st mod 2 = 0 then TableRowAltStyle
                             else TableRowStyle))
                     (\<lambda>(r2, w2).
                        if rowIndex st \<noteq> 0 \<and> columnIndex st > 0
                        then discard (WriteRune E r2 w2 vertical) else Inr (r2, w2))))
         else
           (if columnIndex st \<ge> length (columnWidths st) \<or> cellIndex st \<ge> length (cellWidths st)
            then Inl IndexOutOfRange
            else
              (let columnWidth = columnWidths st ! columnIndex st;
                   cellWidth = cellWidths st ! cellIndex st
               in if columnWidth < cellWidth then Inl NegativeRepeatCount
                  else
                    continue
                      (bindR (discard (WriteString E r w (replicate (columnWidth - cellWidth) SP)))
                         (\<lambda>(r1, w1).
                            bindR (PopStyle E r1 w1)
                              (\<lambda>(r2, w2).
                                 Inr (updTable (\<lambda>s. s\<lparr>columnIndex := columnIndex s + 1,
                                                        cellIndex := cellIndex s + 1\<rparr>) r2,
                                      w2))))))))"

text \<open>
  The throwaway renderer of the measuring pass: the options of the outer one, word
  wrap off, and one table-stack entry that is in measuring mode.
\<close>

definition cellRenderer :: "Renderer \<Rightarrow> Renderer" where
  "cellRenderer r =
     (WithImages (images r) (New (theme r) 0 (hyperlinks r) (softBreak r)))
       \<lparr>tableStack := [\<lparr>columnWidths = [], cellWidths = [], rowIndex = 0, columnIndex = 0,
                         cellIndex = 0, measuring = True\<rparr>]\<rparr>"

text \<open>
  What the measuring pass does with the width \<open>n\<close> of the cell in column \<open>col\<close>:
  \<^verbatim>\<open>columnWidths\<close> grows to hold the column and keeps the maximum, and \<^verbatim>\<open>cellWidths\<close>
  gets the width appended.
\<close>

definition recordWidth :: "nat \<Rightarrow> nat \<Rightarrow> nat list \<times> nat list \<Rightarrow> nat list \<times> nat list" where
  "recordWidth col n acc =
     (let cws = fst acc @ replicate (Suc col - length (fst acc)) 0
      in ((if cws ! col < n then cws[col := n] else cws), snd acc @ [n]))"

section \<open>The other blocks and inlines\<close>

subsection \<open>Code blocks, HTML blocks and link reference definitions\<close>

fun writeLines :: "ext \<Rightarrow> Renderer \<Rightarrow> bytes \<Rightarrow> bytes list \<Rightarrow> panic + (Renderer \<times> bytes)" where
  "writeLines E r w [] = Inr (r, w)"
| "writeLines E r w (l # ls) =
     (case discard (Write E r w l) of
        Inl p \<Rightarrow> Inl p
      | Inr (r', w') \<Rightarrow> writeLines E r' w' ls)"

definition writeCodeLines :: "ext \<Rightarrow> Renderer \<Rightarrow> bytes \<Rightarrow> bytes \<Rightarrow> bytes list \<Rightarrow> panic + (Renderer \<times> bytes)" where
  "writeCodeLines E r w language ls =
     (if theme r = None then writeLines E r w ls else writeCode E r w language (concat ls))"

text \<open>
  \<^verbatim>\<open>RenderCodeBlock\<close>: the \<^verbatim>\<open>defer r.PopPrefix()\<close> that follows \<^verbatim>\<open>PushIndent(4)\<close> runs
  when the call that entered the block returns.
\<close>

definition RenderCodeBlock :: "ext \<Rightarrow> position \<Rightarrow> node \<Rightarrow> Renderer \<Rightarrow> bytes \<Rightarrow> bool \<Rightarrow> rendered" where
  "RenderCodeBlock E pos nd r w enter =
     (if \<not> enter then continue (bindR (PopWordWrap r) (\<lambda>r1. CloseBlock E r1 w))
      else
        continue
          (bindR (OpenBlock E pos nd r w)
             (\<lambda>(r1, w1).
                bindR (discard (WriteString E (PushWordWrap r1 False) w1 (replicate 4 SP)))
                  (\<lambda>(r2, w2).
                     bindR (writeCodeLines E (PushIndent r2 4) w2 [] (Lines (data nd)))
                       (\<lambda>(r3, w3). bindR (PopPrefix r3) (\<lambda>r4. Inr (r4, w3)))))))"

definition RenderFencedCodeBlock :: "ext \<Rightarrow> position \<Rightarrow> node \<Rightarrow> Renderer \<Rightarrow> bytes \<Rightarrow> bool \<Rightarrow> rendered" where
  "RenderFencedCodeBlock E pos nd r w enter =
     (if \<not> enter then
        continue
          (bindR (PopStyle E r w)
             (\<lambda>(r1, w1). bindR (PopWordWrap r1) (\<lambda>r2. CloseBlock E r2 w1)))
      else
        continue
          (bindR (OpenBlock E pos nd r w)
             (\<lambda>(r1, w1).
                bindR (PushStyle E (PushWordWrap r1 False) w1 LiteralStringHeredoc)
                  (\<lambda>(r2, w2).
                     bindR (discard (Write E r2 w2 (Fence (data nd))))
                       (\<lambda>(r3, w3).
                          bindR (discard (Write E r3 w3 (Language (data nd))))
                            (\<lambda>(r4, w4).
                               bindR (WriteByte E r4 w4 NL)
                                 (\<lambda>(r5, w5).
                                    bindR (writeCodeLines E r5 w5 (Language (data nd))
                                             (Lines (data nd)))
                                      (\<lambda>(r6, w6).
                                         bindR (discard (Write E (fst (beginLine r6 w6))
                                                           (snd (beginLine r6 w6))
                                                           (Fence (data nd))))
                                           (\<lambda>(r7, w7). WriteByte E r7 w7 NL)))))))))"

definition RenderHTMLBlock :: "ext \<Rightarrow> position \<Rightarrow> node \<Rightarrow> Renderer \<Rightarrow> bytes \<Rightarrow> bool \<Rightarrow> rendered" where
  "RenderHTMLBlock E pos nd r w enter =
     (if \<not> enter then continue (bindR (PopWordWrap r) (\<lambda>r1. CloseBlock E r1 w))
      else
        continue
          (bindR (OpenBlock E pos nd r w)
             (\<lambda>(r1, w1).
                bindR (writeLines E (PushWordWrap r1 False) w1 (Lines (data nd)))
                  (\<lambda>(r2, w2).
                     case ClosureLine (data nd) of
                       None \<Rightarrow> Inr (r2, w2)
                     | Some l \<Rightarrow> discard (Write E r2 w2 l)))))"

definition RenderLinkReferenceDefinition :: "ext \<Rightarrow> position \<Rightarrow> node \<Rightarrow> Renderer \<Rightarrow> bytes \<Rightarrow> bool \<Rightarrow> rendered" where
  "RenderLinkReferenceDefinition E pos nd r w enter =
     (if \<not> enter then continue (bindR (PopWordWrap r) (\<lambda>r1. CloseBlock E r1 w))
      else
        continue
          (bindR (OpenBlock E pos nd r w)
             (\<lambda>(r1, w1). writeLines E (PushWordWrap r1 True) w1 (Lines (data nd)))))"

subsection \<open>Lists\<close>

text \<open>\<^verbatim>\<open>strconv.FormatInt\<close> in base 10.\<close>

definition FormatInt :: "int \<Rightarrow> bytes" where
  "FormatInt i = (if i < 0 then CHR ''-'' # showNat (nat (- i)) else showNat (nat i))"

definition RenderList :: "ext \<Rightarrow> position \<Rightarrow> node \<Rightarrow> Renderer \<Rightarrow> bytes \<Rightarrow> bool \<Rightarrow> rendered" where
  "RenderList E pos nd r w enter =
     (if enter then
        continue
          (bindR (OpenBlock E pos nd r w)
             (\<lambda>(r1, w1).
                Inr (r1\<lparr>listStack := listStack r1 @
                          [\<lparr>lmarker = Marker (data nd), ordered = IsOrdered (data nd),
                            index = ListStart (data nd)\<rparr>]\<rparr>, w1)))
      else if listStack r = [] then Inl IndexOutOfRange
      else continue (CloseBlock E (r\<lparr>listStack := butlast (listStack r)\<rparr>) w))"

text \<open>
  \<^verbatim>\<open>RenderListItem\<close>: \<open>state\<close> is the top of the list stack, whose index is
  incremented in place once the number of an ordered item is written.
\<close>

definition RenderListItem :: "ext \<Rightarrow> position \<Rightarrow> node \<Rightarrow> Renderer \<Rightarrow> bytes \<Rightarrow> bool \<Rightarrow> rendered" where
  "RenderListItem E pos nd r w enter =
     (if enter then
        continue
          (bindR (OpenBlock E pos nd r w)
             (\<lambda>(r1, w1).
                if listStack r1 = [] then Inl IndexOutOfRange
                else
                  (let state = last (listStack r1) in
                   bindR
                     (if ordered state then
                        bindR (WriteString E r1 w1 (FormatInt (index state)))
                          (\<lambda>(width, r2, w2).
                             Inr (2 + int width,
                                  r2\<lparr>listStack := butlast (listStack r2) @
                                        [(last (listStack r2))
                                           \<lparr>index := index (last (listStack r2)) + 1\<rparr>]\<rparr>,
                                  w2))
                      else Inr (2, r1, w1))
                     (\<lambda>(markerWidth, r3, w3).
                        bindR (discard (Write E r3 w3 [lmarker state, SP]))
                          (\<lambda>(r4, w4).
                             (let offset = markerWidth + int (length (LeadingWhitespace nd)) in
                              bindR
                                (if offset < Offset (data nd)
                                 then discard (Write E r4 w4
                                                 (replicate (nat (Offset (data nd) - offset)) SP))
                                 else Inr (r4, w4))
                                (\<lambda>(r5, w5).
                                   Inr (PushIndent r5 (nat (max offset (Offset (data nd)))),
                                        w5))))))))
      else continue (bindR (PopPrefix r) (\<lambda>r1. CloseBlock E r1 w)))"

subsection \<open>Links, images and raw HTML\<close>

definition RenderAutoLink :: "ext \<Rightarrow> node \<Rightarrow> Renderer \<Rightarrow> bytes \<Rightarrow> bool \<Rightarrow> rendered" where
  "RenderAutoLink E nd r w enter =
     (if \<not> enter then Inr (False, r, w)
      else
        continue
          (bindR (WriteByte E r w (CHR 0x3C))
             (\<lambda>(r1, w1).
                bindR (discard (Write E r1 w1 (Label (data nd))))
                  (\<lambda>(r2, w2). WriteByte E r2 w2 (CHR 0x3E)))))"

text \<open>
  \<^verbatim>\<open>escapeLinkDest\<close>: a destination with a control character, a space or a parenthesis
  is put between angle brackets, its own angle brackets escaped.
\<close>

definition escapeLinkDest :: "bytes \<Rightarrow> bytes" where
  "escapeLinkDest dest =
     (if list_ex (\<lambda>c. (of_char c :: nat) \<le> 32 \<or> c = CHR 0x28 \<or> c = CHR 0x29
                        \<or> (of_char c :: nat) = 127) dest
      then [CHR 0x3C]
           @ concat (map (\<lambda>c. if c = CHR 0x3C \<or> c = CHR 0x3E then [CHR 0x5C, c] else [c]) dest)
           @ [CHR 0x3E]
      else dest)"

text \<open>
  \<^verbatim>\<open>linkTitleDelimiter\<close>: a single quote when the title holds a double quote with no
  backslash before it, a double quote otherwise. \<open>previous\<close> is the byte before the
  current one, none at the start.
\<close>

fun unescapedQuote :: "char option \<Rightarrow> bytes \<Rightarrow> bool" where
  "unescapedQuote previous [] = False"
| "unescapedQuote previous (c # cs) =
     ((c = CHR 0x22 \<and> previous \<noteq> Some (CHR 0x5C)) \<or> unescapedQuote (Some c) cs)"

definition linkTitleDelimiter :: "bytes \<Rightarrow> char" where
  "linkTitleDelimiter title = (if unescapedQuote None title then CHR 0x27 else CHR 0x22)"

definition renderHyperlink :: "ext \<Rightarrow> Renderer \<Rightarrow> bytes \<Rightarrow> bool \<Rightarrow> panic + (Renderer \<times> bytes)" where
  "renderHyperlink E r w enter =
     (if enter then PushStyle E r w GenericUnderline else PopStyle E r w)"

text \<open>
  \<^verbatim>\<open>renderLinkOrImage\<close>. The title of an inline link is written with \<^verbatim>\<open>fmt.Fprintf\<close>
  to the sink itself, not through the renderer.
\<close>

definition renderLinkOrImage :: "ext \<Rightarrow> node \<Rightarrow> Renderer \<Rightarrow> bytes \<Rightarrow> bytes \<Rightarrow> LinkReferenceType \<Rightarrow> bytes \<Rightarrow> bytes \<Rightarrow> bytes \<Rightarrow> bool \<Rightarrow> panic + (Renderer \<times> bytes)" where
  "renderLinkOrImage E nd r w opening refType label dest title enter =
     bindR (if enter then Inr (OpenSpan r nd) else CloseSpan r)
       (\<lambda>r0.
          if hyperlinks r0 then renderHyperlink E r0 w enter
          else if enter then discard (WriteString E r0 w opening)
          else
            (case refType of
               LinkFullReference \<Rightarrow>
                 bindR (discard (WriteString E r0 w [CHR 0x5D, CHR 0x5B]))
                   (\<lambda>(r1, w1).
                      bindR (discard (Write E r1 w1 label))
                        (\<lambda>(r2, w2). WriteByte E r2 w2 (CHR 0x5D)))
             | LinkCollapsedReference \<Rightarrow>
                 discard (WriteString E r0 w [CHR 0x5D, CHR 0x5B, CHR 0x5D])
             | LinkShortcutReference \<Rightarrow> WriteByte E r0 w (CHR 0x5D)
             | LinkInline \<Rightarrow>
                 bindR (discard (WriteString E r0 w [CHR 0x5D, CHR 0x28]))
                   (\<lambda>(r1, w1).
                      bindR (discard (Write E r1 w1 (escapeLinkDest dest)))
                        (\<lambda>(r2, w2).
                           WriteByte E r2
                             (if title \<noteq> []
                              then w2 @ [SP, linkTitleDelimiter title] @ title
                                     @ [linkTitleDelimiter title]
                              else w2)
                             (CHR 0x29)))))"

text \<open>
  The loop of \<^verbatim>\<open>renderImage\<close> over the encoded image: chunks of at most 4096 bytes,
  each in an escape sequence of the terminal graphics protocol, the first with the
  format and the action; all of it goes to the sink itself.
\<close>

function imageChunks :: "bool \<Rightarrow> bytes \<Rightarrow> bytes" where
  "imageChunks first imageData =
     (if imageData = [] then []
      else
        (if first then [ESC] @ ''_Gf=100,a=T,'' else [ESC] @ ''_G'')
        @ ''m='' @ (if length imageData > 4096 then ''1'' else ''0'') @ '';''
        @ take 4096 imageData @ [ESC, CHR 0x5C]
        @ imageChunks False (drop 4096 imageData))"
  by pat_completeness auto
termination
  by (relation "measure (\<lambda>(first, imageData). length imageData)") auto

definition renderImage :: "ext \<Rightarrow> bytes \<Rightarrow> bytes \<Rightarrow> bytes option" where
  "renderImage E w destination =
     map_option (\<lambda>imageData. w @ [NL] @ imageChunks True imageData @ [NL])
       (ImageData E destination)"

definition RenderImage :: "ext \<Rightarrow> node \<Rightarrow> Renderer \<Rightarrow> bytes \<Rightarrow> bool \<Rightarrow> rendered" where
  "RenderImage E nd r w enter =
     (let asLink = continue (renderLinkOrImage E nd r w [CHR 0x21, CHR 0x5B]
                               (ReferenceType (data nd)) (Label (data nd))
                               (Destination (data nd)) (Title (data nd)) enter) in
      if images r then
        (if enter then
           (case renderImage E w (Destination (data nd)) of
              Some w' \<Rightarrow> Inr (True, r\<lparr>inImage := True\<rparr>, w')
            | None \<Rightarrow> asLink)
         else if inImage r then Inr (False, r\<lparr>inImage := False\<rparr>, w)
         else asLink)
      else asLink)"

definition RenderLink :: "ext \<Rightarrow> node \<Rightarrow> Renderer \<Rightarrow> bytes \<Rightarrow> bool \<Rightarrow> rendered" where
  "RenderLink E nd r w enter =
     continue (renderLinkOrImage E nd r w [CHR 0x5B] (ReferenceType (data nd)) (Label (data nd))
                 (Destination (data nd)) (Title (data nd)) enter)"

definition RenderRawHTML :: "ext \<Rightarrow> node \<Rightarrow> Renderer \<Rightarrow> bytes \<Rightarrow> bool \<Rightarrow> rendered" where
  "RenderRawHTML E nd r w enter =
     (if \<not> enter then
        bindR (PopWordWrap r) (\<lambda>r1. bindR (CloseSpan r1) (\<lambda>r2. Inr (True, r2, w)))
      else
        bindR (writeLines E (PushWordWrap (OpenSpan r nd) False) w (Segments (data nd)))
          (\<lambda>(r1, w1). Inr (True, r1, w1)))"

definition RenderWhitespace :: "ext \<Rightarrow> node \<Rightarrow> Renderer \<Rightarrow> bytes \<Rightarrow> bool \<Rightarrow> rendered" where
  "RenderWhitespace E nd r w enter =
     (if \<not> enter then continue (bindR (CloseSpan r) (\<lambda>r1. Inr (r1, w)))
      else continue (discard (Write E (OpenSpan r nd) w (Segment (data nd)))))"

section \<open>The tree walk\<close>

definition render :: "ext \<Rightarrow> position \<Rightarrow> node \<Rightarrow> Renderer \<Rightarrow> bytes \<Rightarrow> bool \<Rightarrow> panic + (nat list \<times> nat list) \<Rightarrow> rendered" where
  "render E pos nd r w enter measured =
     (case data nd of
        Document \<Rightarrow> RenderDocument E nd r w enter
      | Heading l s \<Rightarrow> RenderHeading E pos nd r w enter
      | Blockquote \<Rightarrow> RenderBlockquote E pos nd r w enter
      | Paragraph \<Rightarrow> RenderParagraph E pos nd r w enter
      | TextBlock \<Rightarrow> RenderTextBlock E pos nd r w enter
      | ThematicBreak \<Rightarrow> RenderThematicBreak E pos nd r w enter
      | Table \<Rightarrow> RenderTable E pos nd r w enter measured
      | TableHeader \<Rightarrow> RenderTableHeader E r w enter
      | TableRow \<Rightarrow> RenderTableRow E r w enter
      | TableCell \<Rightarrow> RenderTableCell E r w enter
      | Text v s h \<Rightarrow> RenderText E nd r w enter
      | String v \<Rightarrow> RenderString E nd r w enter
      | Emphasis m l \<Rightarrow> RenderEmphasis E nd r w enter
      | CodeSpan n \<Rightarrow> RenderCodeSpan E nd r w enter
      | CodeBlock ls \<Rightarrow> RenderCodeBlock E pos nd r w enter
      | FencedCodeBlock f l ls \<Rightarrow> RenderFencedCodeBlock E pos nd r w enter
      | HTMLBlock ls c \<Rightarrow> RenderHTMLBlock E pos nd r w enter
      | LinkReferenceDefinition ls \<Rightarrow> RenderLinkReferenceDefinition E pos nd r w enter
      | List mk b s \<Rightarrow> RenderList E pos nd r w enter
      | ListItem off \<Rightarrow> RenderListItem E pos nd r w enter
      | AutoLink l \<Rightarrow> RenderAutoLink E nd r w enter
      | Image t l d ti \<Rightarrow> RenderImage E nd r w enter
      | Link t l d ti \<Rightarrow> RenderLink E nd r w enter
      | RawHTML ss \<Rightarrow> RenderRawHTML E nd r w enter
      | Whitespace v \<Rightarrow> RenderWhitespace E nd r w enter)"

text \<open>
  The parser library's \<^verbatim>\<open>ast.Walk\<close> with the render functions as the walker: enter
  the node, walk its children unless told to skip them, leave the node. For a table,
  entering includes the measuring pass: every cell of every row is walked by a
  renderer of its own into a sink of its own, whose length is the cell's width.
\<close>

function walk :: "ext \<Rightarrow> position \<Rightarrow> node \<Rightarrow> Renderer \<Rightarrow> bytes \<Rightarrow> panic + (Renderer \<times> bytes)"
  and walkChildren :: "ext \<Rightarrow> NodeKind \<Rightarrow> bool \<Rightarrow> NodeKind option \<Rightarrow> node list \<Rightarrow> Renderer \<Rightarrow> bytes \<Rightarrow> panic + (Renderer \<times> bytes)"
  and measureRows :: "ext \<Rightarrow> Renderer \<Rightarrow> node list \<Rightarrow> nat list \<times> nat list \<Rightarrow> panic + (nat list \<times> nat list)"
  and measureCells :: "ext \<Rightarrow> Renderer \<Rightarrow> NodeKind \<Rightarrow> bool \<Rightarrow> NodeKind option \<Rightarrow> nat \<Rightarrow> node list \<Rightarrow> nat list \<times> nat list \<Rightarrow> panic + (nat list \<times> nat list)"
where
  "walk E pos (Node hb ws d cs) r w =
     (case render E pos (Node hb ws d cs) r w True
             (if d = Table then measureRows E r cs ([], []) else Inr ([], [])) of
        Inl p \<Rightarrow> Inl p
      | Inr (skip, r1, w1) \<Rightarrow>
          (case (if skip then Inr (r1, w1)
                 else walkChildren E (Kind_of_data d) hb None cs r1 w1) of
             Inl p \<Rightarrow> Inl p
           | Inr (r2, w2) \<Rightarrow>
               (case render E pos (Node hb ws d cs) r2 w2 False (Inr ([], [])) of
                  Inl p \<Rightarrow> Inl p
                | Inr (s, r3, w3) \<Rightarrow> Inr (r3, w3))))"
| "walkChildren E pk phb prev [] r w = Inr (r, w)"
| "walkChildren E pk phb prev (c # cs) r w =
     (case walk E \<lparr>parentKind = Some pk, parentHasBlankPreviousLines = phb,
                   isFirstChild = (prev = None), previousSiblingKind = prev\<rparr> c r w of
        Inl p \<Rightarrow> Inl p
      | Inr (r1, w1) \<Rightarrow> walkChildren E pk phb (Some (Kind c)) cs r1 w1)"
| "measureRows E r [] acc = Inr acc"
| "measureRows E r (Node hb ws d cells # rows) acc =
     (case measureCells E r (Kind_of_data d) hb None 0 cells acc of
        Inl p \<Rightarrow> Inl p
      | Inr acc' \<Rightarrow> measureRows E r rows acc')"
| "measureCells E r pk phb prev col [] acc = Inr acc"
| "measureCells E r pk phb prev col (cell # cells) acc =
     (case walk E \<lparr>parentKind = Some pk, parentHasBlankPreviousLines = phb,
                   isFirstChild = (prev = None), previousSiblingKind = prev\<rparr>
             cell (cellRenderer r) [] of
        Inl p \<Rightarrow> Inl p
      | Inr (cr, dest) \<Rightarrow>
          measureCells E r pk phb (Some (Kind cell)) (col + 1) cells
            (recordWidth col (length dest) acc))"
  by pat_completeness auto
termination
  by (relation "measure (\<lambda>x. case x of
      Inl (Inl (E, pos, n, r, w)) \<Rightarrow> size n
    | Inl (Inr (E, pk, phb, prev, cs, r, w)) \<Rightarrow> size_list size cs
    | Inr (Inl (E, r, rows, acc)) \<Rightarrow> size_list size rows
    | Inr (Inr (E, r, pk, phb, prev, col, cells, acc)) \<Rightarrow> size_list size cells)")
    auto

text \<open>\<^verbatim>\<open>Render\<close> of the parser library's renderer: the walk from the root.\<close>

definition Render :: "ext \<Rightarrow> Renderer \<Rightarrow> bytes \<Rightarrow> node \<Rightarrow> panic + (Renderer \<times> bytes)" where
  "Render E r w nd =
     walk E \<lparr>parentKind = None, parentHasBlankPreviousLines = False, isFirstChild = False,
             previousSiblingKind = None\<rparr> nd r w"


section \<open>The decoder of the terminal graphics protocol\<close>

record Command =
  Action :: char
  Quiet :: char
  Format :: nat
  Medium :: char
  Width :: nat
  Height :: nat
  Size :: nat
  Offset :: nat
  ID :: nat
  Number :: nat
  Placement :: nat
  Compression :: char
  More :: bool
  Payload :: bytes

definition emptyCommand :: Command where
  "emptyCommand =
     \<lparr>Action = CHR 0x00, Quiet = CHR 0x00, Format = 0, Medium = CHR 0x00, Width = 0,
      Height = 0, Size = 0, Offset = 0, ID = 0, Number = 0, Placement = 0,
      Compression = CHR 0x00, More = False, Payload = []\<rparr>"

text \<open>
  A decoder panics, fails (it returns \<^verbatim>\<open>false\<close> and has stored nothing), or is done.
  A step that never returns has no outcome: the functions below return \<open>None\<close> for
  it.
\<close>

datatype 'a outcome = Panics panic | Fails | Done 'a

text \<open>
  The loop of \<^verbatim>\<open>positiveIntegerDecoder\<close>, as written: the body reads \<^verbatim>\<open>b[0]\<close> and
  leaves \<^verbatim>\<open>b\<close> as it is. \<^verbatim>\<open>val\<close> is a 64-bit unsigned integer.
\<close>

partial_function (option) positiveIntegerLoop :: "bytes \<Rightarrow> nat \<Rightarrow> bool \<Rightarrow> nat outcome option" where
  "positiveIntegerLoop b val any =
     (if length b > 0 then
        (let c = (of_char (hd b) :: nat) in
         if c < 48 \<or> c > 57 then Some Fails
         else positiveIntegerLoop b ((val * 10 + (c - 48)) mod 2 ^ 64) True)
      else if \<not> any then Some Fails
      else Some (Done val))"

definition positiveIntegerDecoder :: "bytes \<Rightarrow> nat outcome option" where
  "positiveIntegerDecoder b = positiveIntegerLoop b 0 False"

definition singleCharacterDecoder :: "bytes \<Rightarrow> char outcome option" where
  "singleCharacterDecoder b = (if length b < 1 then Some Fails else Some (Done (hd b)))"

definition boolDecoder :: "bytes \<Rightarrow> bool outcome option" where
  "boolDecoder b = (if length b < 1 then Some Fails else Some (Done (hd b \<noteq> CHR ''0'')))"

definition store :: "'a outcome option \<Rightarrow> ('a \<Rightarrow> Command) \<Rightarrow> Command outcome option" where
  "store m f =
     (case m of
        None \<Rightarrow> None
      | Some (Panics p) \<Rightarrow> Some (Panics p)
      | Some Fails \<Rightarrow> Some Fails
      | Some (Done x) \<Rightarrow> Some (Done (f x)))"

text \<open>
  The \<^verbatim>\<open>switch\<close> over the key and the call of the decoder it chose. A key the switch
  does not list leaves \<^verbatim>\<open>decoder\<close> nil, and the call of a nil function panics. The key
  \<^verbatim>\<open>'t'\<close> stores into \<^verbatim>\<open>c.Quiet\<close>, as the source has it.
\<close>

definition decodeValue :: "char \<Rightarrow> bytes \<Rightarrow> Command \<Rightarrow> Command outcome option" where
  "decodeValue k v c =
     (if k = CHR ''a'' then store (singleCharacterDecoder v) (\<lambda>x. c\<lparr>Action := x\<rparr>)
      else if k = CHR ''q'' then store (singleCharacterDecoder v) (\<lambda>x. c\<lparr>Quiet := x\<rparr>)
      else if k = CHR ''f'' then store (positiveIntegerDecoder v) (\<lambda>x. c\<lparr>Format := x\<rparr>)
      else if k = CHR ''t'' then store (singleCharacterDecoder v) (\<lambda>x. c\<lparr>Quiet := x\<rparr>)
      else if k = CHR ''s'' then store (positiveIntegerDecoder v) (\<lambda>x. c\<lparr>Width := x\<rparr>)
      else if k = CHR ''v'' then store (positiveIntegerDecoder v) (\<lambda>x. c\<lparr>Height := x\<rparr>)
      else if k = CHR ''S'' then store (positiveIntegerDecoder v) (\<lambda>x. c\<lparr>Size := x\<rparr>)
      else if k = CHR ''O'' then store (positiveIntegerDecoder v) (\<lambda>x. c\<lparr>Offset := x\<rparr>)
      else if k = CHR ''i'' then store (positiveIntegerDecoder v) (\<lambda>x. c\<lparr>ID := x\<rparr>)
      else if k = CHR ''I'' then store (positiveIntegerDecoder v) (\<lambda>x. c\<lparr>Number := x\<rparr>)
      else if k = CHR ''p'' then store (positiveIntegerDecoder v) (\<lambda>x. c\<lparr>Placement := x\<rparr>)
      else if k = CHR ''o'' then store (singleCharacterDecoder v) (\<lambda>x. c\<lparr>Compression := x\<rparr>)
      else if k = CHR ''m'' then store (boolDecoder v) (\<lambda>x. c\<lparr>More := x\<rparr>)
      else Some (Panics NilFunctionCall))"

text \<open>
  The loop that finds the extent of a value: it stops after a comma (consumed) or
  before a semicolon. \<^verbatim>\<open>v\<close> starts as \<^verbatim>\<open>b[:0]\<close> and every other byte sets it to
  \<^verbatim>\<open>v[:1]\<close>, the first byte of the value, so what matters of the loop for \<^verbatim>\<open>v\<close> is
  whether it consumed a byte.
\<close>

fun valueExtent :: "bytes \<Rightarrow> nat \<Rightarrow> bool \<Rightarrow> bytes \<times> nat \<times> bool" where
  "valueExtent [] sz consumed = ([], sz, consumed)"
| "valueExtent (c # cs) sz consumed =
     (if c = CHR '','' then (cs, sz + 1, consumed)
      else if c = CHR '';'' then (c # cs, sz, consumed)
      else valueExtent cs (sz + 1) True)"

text \<open>
  The loop over the control data. It ends the call with 0 on a malformed key (the
  fields stored so far stay in \<^verbatim>\<open>*c\<close>: the command with \<open>None\<close>), or leaves the loop
  with the rest of the buffer and the size so far.
\<close>

partial_function (option) controlData :: "bytes \<Rightarrow> nat \<Rightarrow> Command \<Rightarrow> (panic + (Command \<times> (bytes \<times> nat) option)) option" where
  "controlData b sz c =
     (if length b > 0 then
        (let k = hd b; b1 = tl b; sz1 = sz + 1 in
         if k = CHR '';'' then Some (Inr (c, Some (b1, sz1)))
         else if length b1 < 2 \<or> hd b1 \<noteq> CHR ''='' then Some (Inr (c, None))
         else
           (let b2 = tl b1;
                ext = valueExtent b2 (sz1 + 1) False;
                v = (if snd (snd ext) then [hd b2] else [])
            in Option.bind (decodeValue k v c)
                 (\<lambda>res. case res of
                           Panics p \<Rightarrow> Some (Inl p)
                         | Fails \<Rightarrow> Some (Inr (c, None))
                         | Done c' \<Rightarrow> controlData (fst ext) (fst (snd ext)) c')))
      else Some (Inr (c, Some (b, sz))))"

text \<open>\<^verbatim>\<open>bytes.Index(b, []byte{0x1b, '\\'})\<close>.\<close>

fun indexTerminator :: "bytes \<Rightarrow> nat option" where
  "indexTerminator (a # b # cs) =
     (if a = ESC \<and> b = CHR 0x5C then Some 0 else map_option Suc (indexTerminator (b # cs)))"
| "indexTerminator cs = None"

text \<open>
  \<^verbatim>\<open>DecodeCommand\<close>: what \<^verbatim>\<open>*c\<close> holds when the call returns, and the number of bytes
  consumed, 0 for a malformed buffer. \<open>c\<close> is what \<^verbatim>\<open>*c\<close> holds when the call is made:
  it is left as it is when the buffer does not start a command, and is cleared
  otherwise. \<open>base64\<close> is the standard library's \<^verbatim>\<open>base64.StdEncoding.Decode\<close>: the
  decoded bytes, none for corrupt input.
\<close>

definition DecodeCommand :: "(bytes \<Rightarrow> bytes option) \<Rightarrow> Command \<Rightarrow> bytes \<Rightarrow> (panic + (Command \<times> nat)) option" where
  "DecodeCommand base64 c b =
     (if 5 \<le> length b \<and> b ! 0 = ESC \<and> b ! 1 = CHR ''_'' \<and> b ! 2 = CHR ''G'' then
        Option.bind (controlData (drop 3 b) 3 emptyCommand)
          (\<lambda>res. case res of
              Inl p \<Rightarrow> Some (Inl p)
            | Inr (c1, None) \<Rightarrow> Some (Inr (c1, 0))
            | Inr (c1, Some (b', sz)) \<Rightarrow>
                (case indexTerminator b' of
                   None \<Rightarrow> Some (Inr (c1, 0))
                 | Some terminator \<Rightarrow>
                     (let base64Payload = take terminator b';
                          payloadSize = length base64Payload div 4 * 3
                      in case base64 base64Payload of
                           None \<Rightarrow> Some (Inr (c1, 0))
                         | Some payload \<Rightarrow>
                             if length payload = payloadSize
                             then Some (Inr (c1\<lparr>Payload := payload\<rparr>, sz + terminator + 2))
                             else Some (Inr (c1, 0)))))
      else Some (Inr (c, 0)))"

text \<open>\<^verbatim>\<open>DecodeCommands\<close>: each round decodes into a new, zero \<^verbatim>\<open>Command\<close>.\<close>

partial_function (option) DecodeCommands :: "(bytes \<Rightarrow> bytes option) \<Rightarrow> bytes \<Rightarrow> Command list \<Rightarrow> nat \<Rightarrow> (panic + (Command list \<times> nat)) option" where
  "DecodeCommands base64 b commands seen =
     Option.bind (DecodeCommand base64 emptyCommand b)
       (\<lambda>res. case res of
           Inl p \<Rightarrow> Some (Inl p)
         | Inr (c, sz) \<Rightarrow>
             if sz = 0 then Some (Inr (commands, seen))
             else if \<not> More c then Some (Inr (commands @ [c], seen + sz))
             else DecodeCommands base64 (drop sz b) (commands @ [c]) (seen + sz))"


section \<open>Inputs of the scenarios\<close>

text \<open>
  An instance of the library functions for text without combining marks: a control
  sequence is \<^verbatim>\<open>ESC [\<close>, parameter bytes, intermediate bytes and a final byte; every
  code point is a grapheme cluster of its own; no lexer matches and no image loads.
\<close>

fun csiSize :: "bytes \<Rightarrow> nat" where
  "csiSize (e # b # rest) =
     (if e = ESC \<and> b = CHR ''['' then
        (let isParam = (\<lambda>c. 0x30 \<le> (of_char c :: nat) \<and> (of_char c :: nat) \<le> 0x3F);
             isInter = (\<lambda>c. 0x20 \<le> (of_char c :: nat) \<and> (of_char c :: nat) \<le> 0x2F);
             r1 = dropWhile isParam rest;
             r2 = dropWhile isInter r1
         in case r2 of
              [] \<Rightarrow> 0
            | f # fs \<Rightarrow>
                if 0x40 \<le> (of_char f :: nat) \<and> (of_char f :: nat) \<le> 0x7E
                then 2 + (length rest - length r2) + 1 else 0)
      else 0)"
| "csiSize b = 0"

definition codePoints :: "bytes \<Rightarrow> nat" where
  "codePoints b = length (filter (\<lambda>c. (of_char c :: nat) < 0x80 \<or> 0xC0 \<le> (of_char c :: nat)) b)"

definition plainExt :: ext where
  "plainExt = \<lparr>Decode = csiSize, GraphemeClusterCount = codePoints, Tokenise = (\<lambda>language code. None),
                ImageData = (\<lambda>destination. None)\<rparr>"

definition textNode :: "bytes \<Rightarrow> node" where
  "textNode s = Node False [] (Text s False False) []"

text \<open>The tree of \<^verbatim>\<open># Title\<close>, a blank line, \<^verbatim>\<open>Hello *world*.\<close>\<close>

definition scenario1 :: node where
  "scenario1 =
     Node False [] Document
       [Node True [] (Heading 1 False) [textNode ''Title''],
        Node True [] Paragraph
          [textNode ''Hello '',
           Node False [] (Emphasis (CHR ''*'') 1) [textNode ''world''],
           textNode ''.'']]"

definition scenario2Text :: bytes where
  "scenario2Text = ''Hello world, this is a test of wrapping.''"

definition scenario2 :: node where
  "scenario2 = Node False [] Document [Node True [] Paragraph [textNode scenario2Text]]"

text \<open>The table with the header cells \<^verbatim>\<open>a\<close>, \<^verbatim>\<open>bb\<close> and the row \<^verbatim>\<open>ccc\<close>, \<^verbatim>\<open>d\<close>.\<close>

definition tableCell :: "bytes \<Rightarrow> node" where
  "tableCell s = Node False [] TableCell [textNode s]"

definition scenario3Rows :: "node list" where
  "scenario3Rows =
     [Node False [] TableHeader [tableCell ''a'', tableCell ''bb''],
      Node False [] TableRow [tableCell ''ccc'', tableCell ''d'']]"

definition scenario3 :: node where
  "scenario3 = Node False [] Document [Node True [] Table scenario3Rows]"

text \<open>A paragraph of two words inside a block quote.\<close>

definition quotedParagraph :: node where
  "quotedParagraph =
     Node False [] Document
       [Node True [] Blockquote [Node False [] Paragraph [textNode ''aaa bbb'']]]"

text \<open>Splitting rendered text into its lines and into its words.\<close>

fun splitOn :: "(char \<Rightarrow> bool) \<Rightarrow> bytes \<Rightarrow> bytes \<Rightarrow> bytes list" where
  "splitOn P acc [] = [acc]"
| "splitOn P acc (c # cs) =
     (if P c then acc # splitOn P [] cs else splitOn P (acc @ [c]) cs)"

definition linesOf :: "bytes \<Rightarrow> bytes list" where
  "linesOf b = splitOn (\<lambda>c. c = NL) [] b"

definition wordsOf :: "bytes \<Rightarrow> bytes list" where
  "wordsOf b = filter (\<lambda>x. x \<noteq> []) (splitOn (\<lambda>c. IsSpace (of_char c)) [] b)"


text \<open>The offsets of the root of the span tree, as \<^verbatim>\<open>SpanTree\<close> returns it.\<close>

definition rootOffsets :: "Renderer \<Rightarrow> (int \<times> int) option" where
  "rootOffsets r = map_option (\<lambda>a. (Start (spans r ! a), End (spans r ! a))) (rootSpan r)"

text \<open>A one-paragraph document, and rendering it twice with one renderer.\<close>

definition smallDocument :: node where
  "smallDocument = Node False [] Document [Node True [] Paragraph [textNode ''hi'']]"

definition renderTwice :: "ext \<Rightarrow> Renderer \<Rightarrow> node \<Rightarrow> panic + (Renderer \<times> bytes)" where
  "renderTwice E r nd = bindR (Render E r [] nd) (\<lambda>(r1, w1). Render E r1 [] nd)"

text \<open>
  The header the repository's encoder writes before the first chunk of an image,
  \<^verbatim>\<open>ESC _ G f=100,a=T,m=0;\<close>, with an empty payload and the terminator; and a command
  with a key the decoder does not know.
\<close>

definition encodedHeader :: bytes where
  "encodedHeader = ESC # ''_Gf=100,a=T,m=0;'' @ [ESC, CHR 0x5C]"

definition unknownKey :: bytes where
  "unknownKey = ESC # ''_Gx=1;'' @ [ESC, CHR 0x5C]"

text \<open>The segments of a code span that runs over two lines, \<^verbatim>\<open>a\<close> and \<^verbatim>\<open>b`\<close>.\<close>

definition twoLineCode :: "bytes list" where
  "twoLineCode = [''a'' @ [NL], ''b'' @ [CHR 0x60]]"

section \<open>Notions the statements use\<close>

text \<open>
  The innermost open block is a paragraph that has written output: the test at the
  head of \<^verbatim>\<open>beginLine\<close>. The prefix \<^verbatim>\<open>beginLine\<close> writes is then empty, and the
  renderer's prefix otherwise.
\<close>

definition paragraphContinues :: "Renderer \<Rightarrow> bool" where
  "paragraphContinues r =
     (openBlocks r \<noteq> [] \<and> Kind (bnode (last (openBlocks r))) = KindParagraph
      \<and> \<not> fresh (last (openBlocks r)))"

definition linePrefix :: "Renderer \<Rightarrow> bytes" where
  "linePrefix r = (if paragraphContinues r then [] else prefix r)"

text \<open>
  What the sink is to receive of a buffer written with \<^verbatim>\<open>write\<close>, line by line: each
  line of the buffer, with the prefix before it when it starts an output line and has
  a non-zero width; a line that ends with a newline is followed by its padding, of
  which \<open>pads\<close> holds one per newline, and the newline. The first line starts an output
  line when \<open>atStart\<close> holds and its prefix is \<open>pre\<close>; the lines after a newline all do,
  and their prefix is \<open>later\<close>. \<open>lastLine\<close> is what follows the last newline of a buffer.
\<close>

fun prefixedLines :: "ext \<Rightarrow> bytes \<Rightarrow> bytes \<Rightarrow> bool \<Rightarrow> bytes list \<Rightarrow> bytes \<Rightarrow> bytes" where
  "prefixedLines E pre later atStart [] buf =
     (if atStart \<and> measureText E buf \<noteq> 0 then pre else []) @ buf"
| "prefixedLines E pre later atStart (pad # pads) buf =
     (if atStart \<and> measureText E (takeWhile (\<lambda>c. c \<noteq> NL) buf) \<noteq> 0 then pre else [])
     @ takeWhile (\<lambda>c. c \<noteq> NL) buf @ pad @ [NL]
     @ prefixedLines E later later True pads (drop (Suc (length (takeWhile (\<lambda>c. c \<noteq> NL) buf))) buf)"

definition lastLine :: "bytes \<Rightarrow> bytes" where
  "lastLine buf = rev (takeWhile (\<lambda>c. c \<noteq> NL) (rev buf))"

text \<open>The test of \<^verbatim>\<open>flushWordBuffer\<close> for writing a newline before the word.\<close>

definition forcedBreak :: "ext \<Rightarrow> Renderer \<Rightarrow> bool" where
  "forcedBreak E r =
     (lineWidth r > 0 \<and> lineWidth r + int (measureText E (wordBuffer r)) \<ge> wordWrap r)"

text \<open>What scenario 2 renders to at wrap width 10.\<close>

definition scenario2Output :: bytes where
  "scenario2Output =
     ''Hello     '' @ [NL] @ ''world,    '' @ [NL] @ ''this is a '' @ [NL]
     @ ''test of   '' @ [NL] @ ''wrapping. '' @ [NL]"

text \<open>
  States of a renderer with wrap width 10: at the start of a line with a word of ten
  columns buffered; and after \<^verbatim>\<open>Hello\<close> and a space, with \<^verbatim>\<open>world,\<close> buffered.
\<close>

definition fullWordState :: Renderer where
  "fullWordState = (New None 10 False False)\<lparr>wrapping := [True], wordBuffer := ''abcdefghij''\<rparr>"

definition breakState :: Renderer where
  "breakState =
     (New None 10 False False)\<lparr>wrapping := [True], wordBuffer := ''world,'', lineWidth := 6\<rparr>"

text \<open>A renderer inside a block quote, at the start of a line.\<close>

definition quoteState :: Renderer where
  "quoteState =
     (New None 20 False False)\<lparr>prefixStack := [''> ''], prefix := ''> '', atNewline := True\<rparr>"

section \<open>The span tree while it is built\<close>

text \<open>
  While a render runs, the spans on the span stack are open: their \<^verbatim>\<open>End\<close> is not
  written yet, and the bytes written so far are theirs. \<open>effEnd\<close> is the end of a span
  as it stands: the byte offset counter for an open span, \<^verbatim>\<open>End\<close> for a closed one.
  \<open>adjacent\<close> is the set of the pairs of neighbours on the stack, the deeper one second.
\<close>

definition effEnd :: "Renderer \<Rightarrow> nat \<Rightarrow> int" where
  "effEnd r a = (if a \<in> set (spanStack r) then byteOffset r else End (spans r ! a))"

definition adjacent :: "nat list \<Rightarrow> (nat \<times> nat) set" where
  "adjacent st = set (zip st (tl st))"

text \<open>
  The invariant of the span builder, in four parts: the stack holds distinct spans that
  exist; a span starts before it ends, and ends at or before the byte offset counter;
  a child lies inside its parent, and an open child is the stack neighbour of its
  parent; of two children of one span the earlier is closed and ends at or before the
  start of the later.
\<close>

definition stackOK :: "Renderer \<Rightarrow> bool" where
  "stackOK r = (distinct (spanStack r) \<and> (\<forall>a \<in> set (spanStack r). a < length (spans r)))"

definition boundsOK :: "Renderer \<Rightarrow> bool" where
  "boundsOK r =
     (\<forall>a < length (spans r). Start (spans r ! a) \<le> effEnd r a \<and> effEnd r a \<le> byteOffset r)"

definition childrenOK :: "Renderer \<Rightarrow> bool" where
  "childrenOK r =
     (\<forall>a < length (spans r). \<forall>c \<in> set (Children (spans r ! a)).
        c < length (spans r)
        \<and> Start (spans r ! a) \<le> Start (spans r ! c)
        \<and> effEnd r c \<le> effEnd r a
        \<and> (c \<in> set (spanStack r) \<longrightarrow> (a, c) \<in> adjacent (spanStack r)))"

definition orderOK :: "Renderer \<Rightarrow> bool" where
  "orderOK r =
     (\<forall>a < length (spans r). \<forall>j < length (Children (spans r ! a)). \<forall>i < j.
        effEnd r (Children (spans r ! a) ! i) \<le> Start (spans r ! (Children (spans r ! a) ! j))
        \<and> Children (spans r ! a) ! i \<notin> set (spanStack r))"

definition spanInv :: "Renderer \<Rightarrow> bool" where
  "spanInv r = (stackOK r \<and> boundsOK r \<and> childrenOK r \<and> orderOK r)"

text \<open>
  Two relations between the renderer before and after a step. \<open>keeps\<close>: the span tree
  and the span stack are untouched and the byte offset counter has not gone down.
  \<open>wrote\<close>: only the fields a write may change have changed (the freshness of the open
  blocks, the word buffer, the line width, the newline flag and the byte offset
  counter), and the counter has not gone down.
\<close>

definition keeps :: "Renderer \<Rightarrow> Renderer \<Rightarrow> bool" where
  "keeps r r' = (spans r' = spans r \<and> spanStack r' = spanStack r \<and> byteOffset r \<le> byteOffset r')"

definition core :: "Renderer \<Rightarrow> Renderer" where
  "core r = r\<lparr>openBlocks := [], wordBuffer := [], lineWidth := 0, atNewline := False, byteOffset := 0\<rparr>"

definition wrote :: "Renderer \<Rightarrow> Renderer \<Rightarrow> bool" where
  "wrote r r' = (core r' = core r \<and> byteOffset r \<le> byteOffset r')"

text \<open>\<open>post m Q\<close>: if the step \<open>m\<close> does not panic, its result satisfies \<open>Q\<close>.\<close>

definition post :: "panic + 'a \<Rightarrow> ('a \<Rightarrow> bool) \<Rightarrow> bool" where
  "post m Q = (case m of Inl p \<Rightarrow> True | Inr x \<Rightarrow> Q x)"


definition idle :: "Renderer \<Rightarrow> bool" where
  "idle r = (spanInv r \<and> \<not> inImage r)"








text \<open>
  A document with a heading and a paragraph that holds an emphasis between two texts,
  one with a list and a link, and the offsets and children of every span of a
  renderer, in the order the spans were opened.
\<close>

definition nestedDocument :: node where
  "nestedDocument =
     Node False [] Document
       [Node False [] (Heading 1 False) [textNode ''a''],
        Node True [] Paragraph
          [textNode ''b '', Node False [] (Emphasis (CHR ''*'') 1) [textNode ''c''], textNode '' d'']]"

definition listDocument :: node where
  "listDocument =
     Node False [] Document
       [Node False [] (List (CHR ''-'') False 1)
          [Node False [] (ListItem 2) [Node False [] TextBlock [textNode ''a'']]],
        Node True [] Paragraph
          [Node False [] (Link LinkInline [] ''u'' []) [textNode ''b'']]]"

definition offsets :: "Renderer \<Rightarrow> (int \<times> int \<times> nat list) list" where
  "offsets r = map (\<lambda>s. (Start s, End s, Children s)) (spans r)"


section \<open>The attributes of the terminal\<close>

text \<open>
  What the terminal shows: a foreground and a background colour (none is the
  terminal's default) and whether text is bold, underlined, italic. \<open>applySGR\<close> is the
  effect of one of the SGR commands \<^verbatim>\<open>writeDelta\<close> writes, as ECMA-48 defines it: 0
  resets every attribute, 48 and 38 set a colour, 1, 4 and 3 switch an attribute on and
  22, 24 and 23 switch it off.
\<close>

record terminal =
  fg :: "(nat \<times> nat \<times> nat) option"
  bg :: "(nat \<times> nat \<times> nat) option"
  bold :: bool
  underline :: bool
  italic :: bool

definition plain :: terminal where
  "plain = \<lparr>fg = None, bg = None, bold = False, underline = False, italic = False\<rparr>"

fun applySGR :: "sgr \<Rightarrow> terminal \<Rightarrow> terminal" where
  "applySGR SgrReset t = plain"
| "applySGR (SgrBackground cr cg cb) t = t\<lparr>bg := Some (cr, cg, cb)\<rparr>"
| "applySGR (SgrForeground cr cg cb) t = t\<lparr>fg := Some (cr, cg, cb)\<rparr>"
| "applySGR (SgrBold on) t = t\<lparr>bold := on\<rparr>"
| "applySGR (SgrUnderline on) t = t\<lparr>underline := on\<rparr>"
| "applySGR (SgrItalic on) t = t\<lparr>italic := on\<rparr>"

definition applySGRs :: "sgr list \<Rightarrow> terminal \<Rightarrow> terminal" where
  "applySGRs cs t = fold applySGR cs t"

definition rgb :: "int \<Rightarrow> nat \<times> nat \<times> nat" where
  "rgb c = (Red c, Green c, Blue c)"

text \<open>
  \<open>displays t s\<close>: the terminal shows the style \<open>s\<close>. For the zero style that is the
  state after a reset; for any other style the three switches are those of the style
  and each colour the style sets is the terminal's. \<open>coloursWithin new base\<close>: each
  colour \<open>new\<close> sets is set by \<open>base\<close> as well, or \<open>base\<close> is the zero style.
\<close>

definition displays :: "terminal \<Rightarrow> StyleEntry \<Rightarrow> bool" where
  "displays t s =
     (if IsZero s then t = plain
      else bold t = (Bold s = Yes) \<and> underline t = (Underline s = Yes)
           \<and> italic t = (Italic s = Yes)
           \<and> (IsSet (Colour s) \<longrightarrow> fg t = Some (rgb (Colour s)))
           \<and> (IsSet (Background s) \<longrightarrow> bg t = Some (rgb (Background s))))"

definition coloursWithin :: "StyleEntry \<Rightarrow> StyleEntry \<Rightarrow> bool" where
  "coloursWithin new base =
     (IsZero base
      \<or> ((IsSet (Colour new) \<longrightarrow> IsSet (Colour base))
          \<and> (IsSet (Background new) \<longrightarrow> IsSet (Background base))))"

text \<open>
  Style entries for the examples, a renderer whose theme gives every token the entry
  \<open>s\<close> and whose style stack is \<open>ss\<close>, and \<^verbatim>\<open>PushStyle\<close> followed at once by
  \<^verbatim>\<open>PopStyle\<close>.
\<close>

definition boldStyle :: StyleEntry where
  "boldStyle = zeroStyle\<lparr>Bold := Yes\<rparr>"

definition redStyle :: StyleEntry where
  "redStyle = zeroStyle\<lparr>Colour := 0xFF0001\<rparr>"

definition redBold :: StyleEntry where
  "redBold = zeroStyle\<lparr>Colour := 0xFF0001, Bold := Yes\<rparr>"

definition blueStyle :: StyleEntry where
  "blueStyle = zeroStyle\<lparr>Colour := 0x100\<rparr>"

definition styled :: "StyleEntry list \<Rightarrow> StyleEntry \<Rightarrow> Renderer" where
  "styled ss s = (New (Some (\<lambda>token. s)) 0 False False)\<lparr>styles := ss\<rparr>"

definition pushPop :: "ext \<Rightarrow> Renderer \<Rightarrow> bytes \<Rightarrow> TokenType \<Rightarrow> panic + (Renderer \<times> bytes)" where
  "pushPop E r w token = bindR (PushStyle E r w token) (\<lambda>(r1, w1). PopStyle E r1 w1)"


section \<open>Evaluation\<close>

text \<open>The definitions unfolded when a render is evaluated on a concrete input.\<close>

declare write'.simps [simp del] wrapLoop.simps [simp del] measureLoop.simps [simp del]
  showNat.simps [simp del]

lemmas model_defs =
  write'.simps wrapLoop.simps measureLoop.simps showNat.simps
  DecodeRune_def IsSpace_def goRem_def Kind_def zeroStyle_def IsZero_def IsSet_def Red_def
  Green_def Blue_def New_def measureText_def beginLine_def markStale_def padding_def
  lineLen_def hasNewline_def writeStep_def stepLen_def bindR_def discard_def
  flushWordBuffer_def WordWrap_def PushWordWrap_def PopWordWrap_def runeLen_def wrapStep_def
  Write_def WriteByte_def WriteString_def EncodeRune_def WriteRune_def PushPrefix_def
  PushIndent_def PopPrefix_def OpenSpan_def CloseSpan_def writeSGR_def deltaSGR_def
  writeDelta_def topStyle_def resolveStyle_def PushStyle_def PopStyle_def setFresh_def
  OpenBlock_def CloseBlock_def continue_def RenderDocument_def RenderHeading_def
  RenderBlockquote_def RenderParagraph_def RenderTextBlock_def RenderThematicBreak_def
  RenderText_def RenderString_def RenderEmphasis_def shouldPadCodeSpan_def writeCode_def
  RenderCodeSpan_def topLeft_def topJoin_def topRight_def middleLeft_def middleJoin_def
  middleRight_def bottomLeft_def bottomJoin_def bottomRight_def vertical_def horizontal_def
  updTable_def renderTableBorder_def RenderTable_def nextRow_def RenderTableHeader_def
  RenderTableRow_def RenderTableCell_def cellRenderer_def recordWidth_def render_def
  writeCodeLines_def RenderCodeBlock_def RenderFencedCodeBlock_def RenderHTMLBlock_def
  RenderLinkReferenceDefinition_def FormatInt_def RenderList_def RenderListItem_def
  RenderAutoLink_def escapeLinkDest_def linkTitleDelimiter_def renderHyperlink_def
  renderLinkOrImage_def renderImage_def RenderImage_def RenderLink_def RenderRawHTML_def
  RenderWhitespace_def WithImages_def
  Render_def codePoints_def plainExt_def textNode_def scenario1_def scenario2Text_def
  scenario2_def tableCell_def scenario3Rows_def scenario3_def quotedParagraph_def
  linesOf_def wordsOf_def rootOffsets_def smallDocument_def renderTwice_def
  twoLineCode_def paragraphContinues_def linePrefix_def forcedBreak_def scenario2Output_def
  fullWordState_def breakState_def quoteState_def nestedDocument_def listDocument_def offsets_def Let_def char_of_def bit_Suc_0_iff

lemma replicate_numeral_eval: "replicate (numeral k) x = x # replicate (pred_numeral k) x"
  by (simp add: numeral_eq_Suc)

lemma map_sum_Inl_D: "map_sum id f x = Inl p \<Longrightarrow> x = Inl p"
  by (cases x) auto

section \<open>What one write does\<close>

lemma measureText_Nil [simp]: "measureText E [] = 0"
  by (simp add: measureText_def)

lemma beginLine_sink: "snd (beginLine r w) = w @ linePrefix r"
  by (simp add: beginLine_def linePrefix_def paragraphContinues_def Let_def)

lemma beginLine_atNewline:
  "atNewline (fst (beginLine r w)) \<Longrightarrow> atNewline r \<or> prefix r \<noteq> []"
  by (auto simp: beginLine_def Let_def split: if_splits)

lemma markStale_fields [simp]:
  "atNewline (markStale r) = atNewline r" "lineWidth (markStale r) = lineWidth r"
  "byteOffset (markStale r) = byteOffset r" "wordBuffer (markStale r) = wordBuffer r"
  "prefix (markStale r) = prefix r" "wordWrap (markStale r) = wordWrap r"
  by (simp_all add: markStale_def)

lemma lineLen_no_newline: "NL \<notin> set buf \<Longrightarrow> lineLen buf = length buf"
  by (induction buf) (auto simp: lineLen_def)

lemma write'_Nil: "write' E r w [] written = Inr (written, r, w)"
  by (simp add: write'.simps)

lemma write'_line:
  assumes "NL \<notin> set buf"
  shows "\<exists>r'. write' E r w buf written
           = Inr (written + length buf, r',
                  w @ (if atNewline r \<and> measureText E buf \<noteq> 0 then linePrefix r else []) @ buf)
         \<and> (measureText E buf \<noteq> 0 \<longrightarrow> \<not> atNewline r')"
proof (cases "buf = []")
  case True
  then show ?thesis by (simp add: write'_Nil)
next
  case False
  from assms have ll: "lineLen buf = length buf" by (rule lineLen_no_newline)
  from assms have hn: "\<not> hasNewline buf" by (simp add: hasNewline_def)
  from ll hn have sl: "stepLen buf = length buf" by (simp add: stepLen_def)
  show ?thesis
  proof (cases "atNewline r \<and> measureText E buf \<noteq> 0")
    case True
    obtain r1 w1 where bl: "beginLine r w = (r1, w1)" by (cases "beginLine r w")
    from beginLine_sink [of r w] bl have w1: "w1 = w @ linePrefix r" by simp
    from True False ll hn sl bl w1 show ?thesis
      by (subst write'.simps) (simp add: writeStep_def Let_def write'_Nil)
  next
    case nb: False
    with False ll hn sl show ?thesis
      by (subst write'.simps) (auto simp add: writeStep_def Let_def write'_Nil)
  qed
qed


lemma padding_total:
  assumes "0 < wordWrap r"
  shows "\<exists>k. padding r ww = Inr (replicate k SP)"
proof -
  let ?rem = "wordWrap r - (lineWidth r + int ww)"
  show ?thesis
  proof (cases "?rem < 0")
    case True
    have "goRem (- ?rem) (wordWrap r) = (- ?rem) mod wordWrap r"
      using True assms by (simp add: goRem_def)
    also have "\<dots> < wordWrap r"
      using assms by simp
    finally have "\<not> wordWrap r - goRem (- ?rem) (wordWrap r) < 0" by simp
    with True assms show ?thesis
      by (auto simp add: padding_def Let_def)
  next
    case False
    then show ?thesis
      by (auto simp add: padding_def Let_def)
  qed
qed

lemma write'_newline:
  "write' E r w [NL] written =
     (case padding r 0 of
        Inl p \<Rightarrow> Inl p
      | Inr pad \<Rightarrow> Inr (written, markStale (r\<lparr>atNewline := True, lineWidth := 0\<rparr>), w @ pad @ [NL]))"
  by (subst write'.simps)
     (simp add: writeStep_def lineLen_def hasNewline_def stepLen_def Let_def write'_Nil
        split: sum.splits)

lemma linePrefix_subset: "set (linePrefix r) \<subseteq> set (prefix r)"
  by (simp add: linePrefix_def)

lemma flushWordBuffer_output:
  assumes "0 < wordWrap r" and "NL \<notin> set (wordBuffer r)" and "NL \<notin> set (prefix r)"
  shows "\<exists>r' pad pre.
           flushWordBuffer E r w
             = Inr (r', w @ (if forcedBreak E r then pad @ [NL] else []) @ pre @ wordBuffer r)
           \<and> set pad \<subseteq> {SP} \<and> NL \<notin> set pre"
proof (cases "forcedBreak E r")
  case True
  from padding_total [OF assms(1), of 0] obtain k where pad: "padding r 0 = Inr (replicate k SP)"
    by blast
  define r1 where "r1 = (markStale (r\<lparr>atNewline := True, lineWidth := 0\<rparr>))\<lparr>byteOffset := byteOffset r + 1\<rparr>"
  have p1: "prefix r1 = prefix r" by (simp add: r1_def)
  from write'_line [OF assms(2), of E r1 "w @ replicate k SP @ [NL]" 0]
  obtain r2 where w2: "write' E r1 (w @ replicate k SP @ [NL]) (wordBuffer r) 0
      = Inr (0 + length (wordBuffer r), r2,
             (w @ replicate k SP @ [NL])
             @ (if atNewline r1 \<and> measureText E (wordBuffer r) \<noteq> 0 then linePrefix r1 else [])
             @ wordBuffer r)"
    by blast
  let ?pre = "if atNewline r1 \<and> measureText E (wordBuffer r) \<noteq> 0 then linePrefix r1 else []"
  have "NL \<notin> set ?pre"
    using linePrefix_subset [of r1] p1 assms(3) by auto
  moreover have "set (replicate k SP) \<subseteq> {SP}" by auto
  moreover have "flushWordBuffer E r w
      = Inr (r2\<lparr>wordBuffer := []\<rparr>, w @ (replicate k SP @ [NL]) @ ?pre @ wordBuffer r)"
    unfolding flushWordBuffer_def Let_def if_P [OF True [unfolded forcedBreak_def]]
    using pad w2 by (simp add: bindR_def write'_newline r1_def)
  ultimately show ?thesis using True by (intro exI [of _ "r2\<lparr>wordBuffer := []\<rparr>"] exI [of _ "replicate k SP"] exI [of _ ?pre]) simp
next
  case False
  from write'_line [OF assms(2), of E r w 0]
  obtain r2 where w2: "write' E r w (wordBuffer r) 0
      = Inr (0 + length (wordBuffer r), r2,
             w @ (if atNewline r \<and> measureText E (wordBuffer r) \<noteq> 0 then linePrefix r else [])
             @ wordBuffer r)"
    by blast
  let ?pre = "if atNewline r \<and> measureText E (wordBuffer r) \<noteq> 0 then linePrefix r else []"
  have "NL \<notin> set ?pre"
    using linePrefix_subset [of r] assms(3) by auto
  moreover have "flushWordBuffer E r w = Inr (r2\<lparr>wordBuffer := []\<rparr>, w @ ?pre @ wordBuffer r)"
    unfolding flushWordBuffer_def Let_def if_not_P [OF False [unfolded forcedBreak_def]]
    using w2 by (simp add: bindR_def)
  ultimately show ?thesis using False by (intro exI [of _ "r2\<lparr>wordBuffer := []\<rparr>"] exI [of _ "[]"] exI [of _ ?pre]) simp
qed

section \<open>Scenario 1: pass-through with no theme and no wrap\<close>

text \<open>
  C1. The claim: with no theme and wrap width 0, rendering the tree of
  \<^verbatim>\<open># Title\<close>, blank line, \<^verbatim>\<open>Hello *world*.\<close> writes the input back and returns no
  error. On the code the render does not return: the newline after the heading text is
  written at line width 7, \<^verbatim>\<open>remaining\<close> is \<open>0 - 7\<close>, and the padding computes
  \<^verbatim>\<open>-remaining % r.wordWrap\<close> with a zero divisor.
\<close>

theorem scenario1_divides_by_zero:
  "Render plainExt (New None 0 False False) [] scenario1 = Inl DivideByZero"
  by (simp add: model_defs replicate_numeral_eval)

section \<open>Scenario 3: the two-column table\<close>

text \<open>
  C5. The measuring pass finds the column widths 3 and 2 (and the cell widths 1, 2, 3,
  1), as claimed. The render pass then does not produce the five lines: with no wrap
  the newline that ends the top border divides by zero, as in scenario 1.
\<close>

theorem scenario3_measured_then_divides_by_zero:
  "measureRows plainExt (New None 0 False False) scenario3Rows ([], []) = Inr ([3, 2], [1, 2, 3, 1])
   \<and> Render plainExt (New None 0 False False) [] scenario3 = Inl DivideByZero"
  by (simp add: model_defs replicate_numeral_eval)

section \<open>The byte offset counter\<close>

text \<open>
  C7. The claim: the byte offset counter equals the number of bytes written to the
  sink. On the code, a newline written with wrapping off reaches the sink and is not
  counted: \<^verbatim>\<open>write\<close> adds the bytes before the newline to \<^verbatim>\<open>written\<close>, not the newline.
  Here the sink holds one byte and the counter is still 0.
\<close>

theorem newline_not_counted:
  "map_sum id (\<lambda>(n, r, w). (byteOffset r, w)) (Write plainExt (New None 0 False False) [] [NL])
   = Inr (0, [NL])"
  by (simp add: model_defs)


section \<open>Rendering twice with one renderer\<close>

text \<open>
  C8. The claim: every piece of render state is reset when a top-level render starts,
  so a second render with the same renderer gives the output and the span offsets of
  the first. \<^verbatim>\<open>RenderDocument\<close> resets the list, prefix, wrap and style stacks, and
  leaves the byte offset counter and the last-span link as they are: the output of the
  second render is that of the first, and its span tree starts where the first ended.
\<close>

theorem second_render_keeps_offset:
  "map_sum id (\<lambda>(r, w). (w, rootOffsets r)) (Render plainExt (New None 10 False False) [] smallDocument)
     = Inr (''hi        '' @ [NL], Some (0, 3))
   \<and> map_sum id (\<lambda>(r, w). (w, rootOffsets r)) (renderTwice plainExt (New None 10 False False) smallDocument)
     = Inr (''hi        '' @ [NL], Some (3, 6))"
  by (simp add: model_defs replicate_numeral_eval)

section \<open>The decoder of the graphics protocol\<close>

lemma positiveIntegerLoop_returns:
  assumes "positiveIntegerLoop b val any = Some y"
  shows "b = [] \<or> (of_char (hd b) :: nat) < 48 \<or> (of_char (hd b) :: nat) > 57"
  by (rule positiveIntegerLoop.raw_induct
        [where P = "\<lambda>b val any y. b = [] \<or> (of_char (hd b) :: nat) < 48 \<or> (of_char (hd b) :: nat) > 57",
         OF _ assms])
     (auto split: if_splits simp: Let_def)

lemma positiveIntegerLoop_digit: "positiveIntegerLoop ''1'' val any = None"
proof (cases "positiveIntegerLoop ''1'' val any")
  case None
  then show ?thesis .
next
  case (Some y)
  from positiveIntegerLoop_returns [OF this] show ?thesis by simp
qed

text \<open>
  C9. The claim: \<^verbatim>\<open>DecodeCommand\<close> terminates on every buffer, decodes integer
  fields and never panics. On the header the encoder itself writes, the value of
  \<^verbatim>\<open>f\<close> reaches \<^verbatim>\<open>positiveIntegerDecoder\<close> as the one byte \<^verbatim>\<open>1\<close> (the extent loop
  keeps \<^verbatim>\<open>v[:1]\<close>), and the decoder's loop never shortens its buffer: the call does
  not return. On a key outside the switch the decoder is nil, and calling it panics.
\<close>

theorem decode_command_diverges_or_panics:
  "DecodeCommand base64 c encodedHeader = None
   \<and> DecodeCommand base64 c unknownKey = Some (Inl NilFunctionCall)"
proof
  show "DecodeCommand base64 c encodedHeader = None"
    unfolding DecodeCommand_def encodedHeader_def
    apply simp
    apply (subst controlData.simps)
    apply (simp add: decodeValue_def store_def positiveIntegerDecoder_def
        positiveIntegerLoop_digit Let_def)
    done
  show "DecodeCommand base64 c unknownKey = Some (Inl NilFunctionCall)"
    unfolding DecodeCommand_def unknownKey_def
    apply simp
    apply (subst controlData.simps)
    apply (simp add: decodeValue_def store_def Let_def)
    done
qed

section \<open>The padding of code spans\<close>

text \<open>
  C10. The claim: a code span is padded if and only if its content is not empty, not
  all white space, and starts or ends with a backtick or a space. For the span whose
  content is the two segments \<^verbatim>\<open>a\<close> (with its newline) and \<^verbatim>\<open>b`\<close>, the content ends
  with a backtick and \<^verbatim>\<open>shouldPadCodeSpan\<close> is false: after its loop, \<^verbatim>\<open>text\<close> is
  the first segment that is not blank, and the last character is taken from it.
\<close>

theorem two_line_code_not_padded:
  "shouldPadCodeSpan twoLineCode = False
   \<and> concat twoLineCode \<noteq> [] \<and> last (concat twoLineCode) = CHR 0x60"
  by (simp add: model_defs)


section \<open>Scenario 2 and the forced line break\<close>

text \<open>
  C2, as stated, fails in its general part: with a word of ten columns buffered at the
  start of a line and wrap width 10, the word's width plus the line width reaches the
  wrap width, and flushing writes the word with no newline before it.
\<close>

theorem full_width_word_not_broken:
  "map_sum id snd (flushWordBuffer plainExt fullWordState []) = Inr ''abcdefghij''
   \<and> wordWrap fullWordState
       \<le> lineWidth fullWordState + int (measureText plainExt (wordBuffer fullWordState))"
  by (simp add: model_defs)

text \<open>
  C2, amended. Scenario 2 at wrap width 10 renders to five lines of at most 10 columns
  each, whose words are the words of the input in order (so no word is split). And for
  every renderer state with wrapping on (a positive wrap width) whose buffered word and
  prefix hold no newline, flushing the word buffer returns, and what it appends to the
  sink is the buffered word, after the line prefix if one is due, and before those a
  newline (after padding spaces) exactly when the line width is positive and the
  word's width plus the line width reaches or exceeds the wrap width.
\<close>

theorem wrapped_scenario_and_forced_break:
  assumes "0 < wordWrap r" and "NL \<notin> set (wordBuffer r)" and "NL \<notin> set (prefix r)"
  shows "map_sum id snd (Render plainExt (New None 10 False False) [] scenario2)
           = Inr scenario2Output
         \<and> list_all (\<lambda>l. measureText plainExt l \<le> 10) (linesOf scenario2Output)
         \<and> wordsOf scenario2Output = wordsOf scenario2Text
         \<and> (\<exists>r' pad pre.
               flushWordBuffer E r w
                 = Inr (r', w @ (if forcedBreak E r then pad @ [NL] else []) @ pre @ wordBuffer r)
               \<and> set pad \<subseteq> {SP} \<and> NL \<notin> set pre)"
proof -
  have "map_sum id snd (Render plainExt (New None 10 False False) [] scenario2)
          = Inr scenario2Output"
    by code_simp
  moreover have "list_all (\<lambda>l. measureText plainExt l \<le> 10) (linesOf scenario2Output)"
    by code_simp
  moreover have "wordsOf scenario2Output = wordsOf scenario2Text"
    by code_simp
  ultimately show ?thesis
    using flushWordBuffer_output [OF assms, of E w] by blast
qed

theorem wrapped_scenario_witness:
  "0 < wordWrap breakState \<and> NL \<notin> set (wordBuffer breakState) \<and> NL \<notin> set (prefix breakState)
   \<and> forcedBreak plainExt breakState
   \<and> (\<exists>r' pad pre.
         flushWordBuffer plainExt breakState ''Hello ''
           = Inr (r', ''Hello '' @ (pad @ [NL]) @ pre @ ''world,'')
         \<and> set pad \<subseteq> {SP} \<and> NL \<notin> set pre)"
proof -
  have h1: "0 < wordWrap breakState" by (simp add: model_defs)
  have h2: "NL \<notin> set (wordBuffer breakState)" by (simp add: model_defs)
  have h3: "NL \<notin> set (prefix breakState)" by (simp add: model_defs)
  have h4: "forcedBreak plainExt breakState" by (simp add: model_defs)
  have h5: "wordBuffer breakState = ''world,''" by (simp add: model_defs)
  from wrapped_scenario_and_forced_break [OF h1 h2 h3, of plainExt "''Hello ''"] h4 h5
  have "\<exists>r' pad pre.
         flushWordBuffer plainExt breakState ''Hello ''
           = Inr (r', ''Hello '' @ (pad @ [NL]) @ pre @ ''world,'')
         \<and> set pad \<subseteq> {SP} \<and> NL \<notin> set pre"
    by simp
  with h1 h2 h3 h4 show ?thesis by blast
qed

section \<open>The line prefix\<close>

text \<open>
  C6, as stated, fails for the continuation lines of a paragraph inside a block quote:
  at wrap width 7 the quoted paragraph \<^verbatim>\<open>aaa bbb\<close> is wrapped after \<^verbatim>\<open>aaa\<close>, and the
  line that continues it starts with \<^verbatim>\<open>bbb\<close>, not with the quote prefix.
\<close>

theorem quoted_continuation_line_has_no_prefix:
  "map_sum id snd (Render plainExt (New None 7 False False) [] quotedParagraph)
     = Inr (''> aaa  '' @ [NL] @ ''bbb    '' @ [NL])"
  by (simp add: model_defs replicate_numeral_eval)

text \<open>One round of the loop of \<^verbatim>\<open>write\<close>, and the loop over every line of a buffer.\<close>

lemma padding_spaces: "padding r ww = Inr pad \<Longrightarrow> set pad \<subseteq> {SP}"
  by (auto simp: padding_def Let_def split: if_splits)

lemma take_lineLen: "take (lineLen buf) buf = takeWhile (\<lambda>c. c \<noteq> NL) buf"
  by (simp add: lineLen_def takeWhile_eq_take [symmetric])

lemma linePrefix_stale:
  "linePrefix (markStale (r\<lparr>atNewline := a, lineWidth := b\<rparr>)) = linePrefix (markStale r)"
  "linePrefix (markStale (markStale r)) = linePrefix (markStale r)"
  by (auto simp: linePrefix_def paragraphContinues_def markStale_def)

lemma linePrefix_beginLine:
  "linePrefix (markStale (fst (beginLine r w))) = linePrefix (markStale r)"
  by (auto simp: linePrefix_def paragraphContinues_def markStale_def beginLine_def Let_def)

lemma writeStep_out:
  assumes "writeStep E r w buf = Inr (r1, w1)"
  shows "\<exists>pad. w1 = w @ (if atNewline r \<and> measureText E (takeWhile (\<lambda>c. c \<noteq> NL) buf) \<noteq> 0
                        then linePrefix r else [])
                   @ takeWhile (\<lambda>c. c \<noteq> NL) buf @ (if NL \<in> set buf then pad @ [NL] else [])
               \<and> set pad \<subseteq> {SP}"
    and "NL \<in> set buf \<Longrightarrow> atNewline r1"
    and "linePrefix (markStale r1) = linePrefix (markStale r)"
    and "NL \<in> set buf \<Longrightarrow> linePrefix r1 = linePrefix (markStale r)"
    and "NL \<notin> set buf \<Longrightarrow> measureText E buf \<noteq> 0 \<Longrightarrow> \<not> atNewline r1"
proof -
  let ?line = "takeWhile (\<lambda>c. c \<noteq> NL) buf"
  let ?b = "atNewline r \<and> measureText E ?line \<noteq> 0"
  let ?r0 = "if ?b then fst (beginLine r w) else r"
  let ?w0 = "if ?b then snd (beginLine r w) else w"
  have w0: "?w0 = w @ (if ?b then linePrefix r else [])"
    by (simp add: beginLine_sink)
  have lp0: "linePrefix (markStale ?r0) = linePrefix (markStale r)"
    by (simp add: linePrefix_beginLine)
  show "\<exists>pad. w1 = w @ (if ?b then linePrefix r else []) @ ?line
                 @ (if NL \<in> set buf then pad @ [NL] else []) \<and> set pad \<subseteq> {SP}"
  proof (cases "NL \<in> set buf")
    case True
    with assms obtain pad where p: "padding ?r0 (measureText E ?line) = Inr pad"
      and w1: "w1 = ?w0 @ ?line @ pad @ [NL]"
      by (auto simp: writeStep_def Let_def take_lineLen hasNewline_def case_prod_beta
          split: sum.splits if_splits)
    from padding_spaces [OF p] w1 True w0 show ?thesis by auto
  next
    case False
    with assms have "w1 = ?w0 @ ?line"
      by (auto simp: writeStep_def Let_def take_lineLen hasNewline_def case_prod_beta
          split: sum.splits if_splits)
    with False w0 show ?thesis by (intro exI [of _ "[]"]) auto
  qed
  show "NL \<in> set buf \<Longrightarrow> atNewline r1"
    using assms
    by (auto simp: writeStep_def Let_def hasNewline_def case_prod_beta split: sum.splits if_splits)
  show "linePrefix (markStale r1) = linePrefix (markStale r)"
    using assms lp0
    by (auto simp: writeStep_def Let_def hasNewline_def case_prod_beta take_lineLen linePrefix_stale
        split: sum.splits if_splits)
  show "NL \<in> set buf \<Longrightarrow> linePrefix r1 = linePrefix (markStale r)"
    using assms lp0
    by (auto simp: writeStep_def Let_def hasNewline_def case_prod_beta take_lineLen linePrefix_stale
        split: sum.splits if_splits)
  show "NL \<notin> set buf \<Longrightarrow> measureText E buf \<noteq> 0 \<Longrightarrow> \<not> atNewline r1"
    using assms
    by (auto simp: writeStep_def Let_def hasNewline_def case_prod_beta lineLen_no_newline
        split: sum.splits if_splits)
qed

lemma count_newlines:
  "NL \<in> set buf \<Longrightarrow>
   count_list buf NL = Suc (count_list (drop (Suc (length (takeWhile (\<lambda>c. c \<noteq> NL) buf))) buf) NL)"
  "NL \<notin> set buf \<Longrightarrow> count_list buf NL = 0"
  by (induction buf) auto

lemma split_at_newline:
  "NL \<in> set buf \<Longrightarrow>
   buf = takeWhile (\<lambda>c. c \<noteq> NL) buf @ NL # drop (Suc (length (takeWhile (\<lambda>c. c \<noteq> NL) buf))) buf"
  by (induction buf) auto

lemma lastLine_append: "lastLine (line @ NL # rest) = lastLine rest"
proof -
  have "takeWhile (\<lambda>c. c \<noteq> NL) (rev rest @ NL # rev line) = takeWhile (\<lambda>c. c \<noteq> NL) (rev rest)"
  proof (cases "NL \<in> set rest")
    case True
    then have "NL \<in> set (rev rest)" by simp
    then show ?thesis by (rule takeWhile_append1) simp
  next
    case False
    then have all: "\<And>x. x \<in> set (rev rest) \<Longrightarrow> x \<noteq> NL" by auto
    have one: "takeWhile (\<lambda>c. c \<noteq> NL) (rev rest) = rev rest"
      by (rule takeWhile_eq_all_conv [THEN iffD2]) (use all in blast)
    have "takeWhile (\<lambda>c. c \<noteq> NL) (rev rest @ NL # rev line) = rev rest @ []"
      using takeWhile_append2 [of "rev rest" "\<lambda>c. c \<noteq> NL" "NL # rev line"] all by simp
    also have "\<dots> = rev rest" by (rule append_Nil2)
    also note one [symmetric]
    finally show ?thesis .
  qed
  then show ?thesis by (simp add: lastLine_def)
qed

lemma lastLine_step:
  assumes "NL \<in> set buf"
  shows "lastLine (drop (Suc (length (takeWhile (\<lambda>c. c \<noteq> NL) buf))) buf) = lastLine buf"
proof -
  have "lastLine buf
      = lastLine (takeWhile (\<lambda>c. c \<noteq> NL) buf
                  @ NL # drop (Suc (length (takeWhile (\<lambda>c. c \<noteq> NL) buf))) buf)"
    by (rule arg_cong [OF split_at_newline [OF assms]])
  also have "\<dots> = lastLine (drop (Suc (length (takeWhile (\<lambda>c. c \<noteq> NL) buf))) buf)"
    by (rule lastLine_append)
  finally show ?thesis by (rule sym)
qed

lemma lastLine_no_newline:
  assumes "NL \<notin> set buf"
  shows "lastLine buf = buf"
proof -
  have "takeWhile (\<lambda>c. c \<noteq> NL) (rev buf) = rev buf"
    by (rule takeWhile_eq_all_conv [THEN iffD2]) (use assms in auto)
  then show ?thesis by (simp only: lastLine_def rev_rev_ident)
qed

lemma line_no_newline: "NL \<notin> set buf \<Longrightarrow> takeWhile (\<lambda>c. c \<noteq> NL) buf = buf"
  by (rule takeWhile_eq_all_conv [THEN iffD2]) auto

lemma beginLine_wordWrap: "wordWrap (fst (beginLine r w)) = wordWrap r"
  by (simp add: beginLine_def Let_def)

lemma stepLen_drop:
  "NL \<in> set buf \<Longrightarrow> drop (stepLen buf) buf = drop (Suc (length (takeWhile (\<lambda>c. c \<noteq> NL) buf))) buf"
  "NL \<notin> set buf \<Longrightarrow> drop (stepLen buf) buf = []"
  by (simp_all add: stepLen_def hasNewline_def lineLen_def lineLen_no_newline [unfolded lineLen_def])

lemma write'_lines:
  assumes "write' E r w buf written = Inr (n, r', w')"
  shows "\<exists>pads. w' = w @ prefixedLines E (linePrefix r) (linePrefix (markStale r)) (atNewline r) pads buf
           \<and> length pads = count_list buf NL \<and> (\<forall>pad \<in> set pads. set pad \<subseteq> {SP})
           \<and> (measureText E (lastLine buf) \<noteq> 0 \<longrightarrow> \<not> atNewline r')"
  using assms
proof (induction E r w buf written arbitrary: n r' w' rule: write'.induct)
  case (1 E r w buf written)
  show ?case
  proof (cases "buf = []")
    case True
    with "1.prems" show ?thesis
      by (intro exI [of _ "[]"]) (simp add: write'_Nil lastLine_def)
  next
    case False
    with "1.prems" obtain r1 w1 where st: "writeStep E r w buf = Inr (r1, w1)"
      and rec: "write' E r1 w1 (drop (stepLen buf) buf) (written + lineLen buf) = Inr (n, r', w')"
      by (subst (asm) write'.simps) (auto split: sum.splits)
    note out = writeStep_out [OF st]
    from out(1) obtain pad where w1: "w1 = w @ (if atNewline r \<and> measureText E (takeWhile (\<lambda>c. c \<noteq> NL) buf) \<noteq> 0
                        then linePrefix r else [])
                   @ takeWhile (\<lambda>c. c \<noteq> NL) buf @ (if NL \<in> set buf then pad @ [NL] else [])"
      and pad: "set pad \<subseteq> {SP}"
      by blast
    show ?thesis
    proof (cases "NL \<in> set buf")
      case True
      let ?rest = "drop (Suc (length (takeWhile (\<lambda>c. c \<noteq> NL) buf))) buf"
      from rec True have rec': "write' E r1 w1 ?rest (written + lineLen buf) = Inr (n, r', w')"
        by (simp add: stepLen_drop)
      from "1.IH" [OF False st refl, unfolded stepLen_drop(1) [OF True], OF rec']
      obtain pads where a: "w' = w1 @ prefixedLines E (linePrefix r1) (linePrefix (markStale r1))
            (atNewline r1) pads ?rest"
        and b: "length pads = count_list ?rest NL" and c: "\<forall>q \<in> set pads. set q \<subseteq> {SP}"
        and d: "measureText E (lastLine ?rest) \<noteq> 0 \<longrightarrow> \<not> atNewline r'"
        by blast
      from a w1 True out(2-4) have "w' = w @ prefixedLines E (linePrefix r) (linePrefix (markStale r))
          (atNewline r) (pad # pads) buf"
        by simp
      moreover from b True have "length (pad # pads) = count_list buf NL"
        by (simp add: count_newlines(1) [OF True])
      moreover from c pad have "\<forall>q \<in> set (pad # pads). set q \<subseteq> {SP}" by simp
      moreover from d have "measureText E (lastLine buf) \<noteq> 0 \<longrightarrow> \<not> atNewline r'"
        by (simp add: lastLine_step [OF True])
      ultimately show ?thesis by blast
    next
      case nonl: False
      from rec nonl have "r' = r1" "w' = w1"
        by (simp_all add: stepLen_drop write'_Nil)
      with w1 nonl out(5) show ?thesis
        by (intro exI [of _ "[]"]) (simp add: count_newlines lastLine_no_newline line_no_newline)
    qed
  qed
qed

lemma write'_returns:
  assumes "NL \<in> set buf \<longrightarrow> 0 < wordWrap r"
  shows "\<exists>x. write' E r w buf written = Inr x"
  using assms
proof (induction E r w buf written rule: write'.induct)
  case (1 E r w buf written)
  show ?case
  proof (cases "buf = []")
    case True
    then show ?thesis by (simp add: write'_Nil)
  next
    case False
    let ?line = "takeWhile (\<lambda>c. c \<noteq> NL) buf"
    let ?b = "atNewline r \<and> measureText E ?line \<noteq> 0"
    let ?r0 = "if ?b then fst (beginLine r w) else r"
    have ww: "wordWrap ?r0 = wordWrap r"
      by (simp add: beginLine_def Let_def)
    have "\<exists>r1 w1. writeStep E r w buf = Inr (r1, w1)"
    proof (cases "NL \<in> set buf")
      case True
      with "1.prems" ww have "0 < wordWrap ?r0" by simp
      from padding_total [OF this, of "measureText E ?line"] obtain k
        where "padding ?r0 (measureText E ?line) = Inr (replicate k SP)" by blast
      with True show ?thesis
        by (auto simp: writeStep_def Let_def take_lineLen hasNewline_def case_prod_beta)
    next
      case False
      then show ?thesis
        by (auto simp: writeStep_def Let_def take_lineLen hasNewline_def case_prod_beta)
    qed
    then obtain r1 w1 where st: "writeStep E r w buf = Inr (r1, w1)" by blast
    have "wordWrap r1 = wordWrap r"
      using st
      by (auto simp: writeStep_def Let_def hasNewline_def case_prod_beta beginLine_wordWrap
          split: sum.splits if_splits)
    with "1.prems" have "NL \<in> set (drop (stepLen buf) buf) \<longrightarrow> 0 < wordWrap r1"
      by (auto dest: in_set_dropD)
    from "1.IH" [OF False st refl this] st False show ?thesis
      by (subst write'.simps) simp
  qed
qed

text \<open>
  C6, amended. Whatever a call of \<^verbatim>\<open>write\<close> returns with, the sink has received
  every line of the buffer in order, each line that starts an output line and has a
  non-zero width preceded by the line prefix, once, and each newline preceded by
  padding spaces only; the renderer is no longer at the start of a line when what
  follows the last newline has a non-zero width, so the next write adds no prefix to
  that line. The call returns when the wrap width is positive or the buffer holds no
  newline. The line prefix is the renderer's prefix, which stays the concatenation of
  the prefix stack when a prefix is pushed or popped; except that it is empty, with no
  part of the enclosing blocks' prefix kept, when the innermost open block is a
  paragraph that has already written output, as it is for every line after the first
  of one write into a paragraph.
\<close>

theorem line_prefix_written_once:
  "(\<forall>n r' w'. write' E r w buf 0 = Inr (n, r', w') \<longrightarrow>
      (\<exists>pads. w' = w @ prefixedLines E (linePrefix r) (linePrefix (markStale r)) (atNewline r)
                         pads buf
         \<and> length pads = count_list buf NL \<and> (\<forall>pad \<in> set pads. set pad \<subseteq> {SP})
         \<and> (measureText E (lastLine buf) \<noteq> 0 \<longrightarrow> \<not> atNewline r')))
   \<and> ((NL \<in> set buf \<longrightarrow> 0 < wordWrap r) \<longrightarrow> (\<exists>x. write' E r w buf 0 = Inr x))
   \<and> (prefix r = concat (prefixStack r)
        \<longrightarrow> prefix (PushPrefix r p) = concat (prefixStack (PushPrefix r p))
            \<and> (\<forall>r'. PopPrefix r = Inr r' \<longrightarrow> prefix r' = concat (prefixStack r')))"
proof (intro conjI allI impI)
  fix n r' w'
  assume "write' E r w buf 0 = Inr (n, r', w')"
  then show "\<exists>pads. w' = w @ prefixedLines E (linePrefix r) (linePrefix (markStale r)) (atNewline r)
                         pads buf
         \<and> length pads = count_list buf NL \<and> (\<forall>pad \<in> set pads. set pad \<subseteq> {SP})
         \<and> (measureText E (lastLine buf) \<noteq> 0 \<longrightarrow> \<not> atNewline r')"
    by (rule write'_lines)
next
  assume "NL \<in> set buf \<longrightarrow> 0 < wordWrap r"
  then show "\<exists>x. write' E r w buf 0 = Inr x"
    by (rule write'_returns)
next
  assume "prefix r = concat (prefixStack r)"
  then show "prefix (PushPrefix r p) = concat (prefixStack (PushPrefix r p))"
    by (simp add: PushPrefix_def)
next
  fix r'
  assume c: "prefix r = concat (prefixStack r)" and pop: "PopPrefix r = Inr r'"
  from pop have ne: "prefixStack r \<noteq> []"
    and r': "r' = r\<lparr>prefix := take (length (prefix r) - length (last (prefixStack r))) (prefix r),
                    prefixStack := butlast (prefixStack r)\<rparr>"
    by (auto simp: PopPrefix_def split: if_splits)
  from ne have "concat (prefixStack r) = concat (butlast (prefixStack r)) @ last (prefixStack r)"
    by (metis append_butlast_last_id concat.simps concat_append append_Nil2)
  with c r' show "prefix r' = concat (prefixStack r')" by simp
qed

text \<open>
  Two lines written at once inside a block quote, at the start of a line: each gets
  the quote prefix, once.
\<close>

theorem line_prefix_witness:
  "\<exists>n r' pad. write' plainExt quoteState [] (''ab'' @ [NL] @ ''cd'') 0
       = Inr (n, r', ''> ab'' @ pad @ [NL] @ ''> cd'')
     \<and> set pad \<subseteq> {SP} \<and> \<not> atNewline r'"
proof -
  let ?buf = "''ab'' @ [NL] @ ''cd''"
  note all = line_prefix_written_once [of plainExt quoteState "[]" ?buf]
  have "0 < wordWrap quoteState" by (simp add: quoteState_def New_def)
  with all obtain x where "write' plainExt quoteState [] ?buf 0 = Inr x" by blast
  then obtain n r' w' where res: "write' plainExt quoteState [] ?buf 0 = Inr (n, r', w')"
    by (cases x) auto
  with all obtain pads where out: "w' = [] @ prefixedLines plainExt (linePrefix quoteState)
        (linePrefix (markStale quoteState)) (atNewline quoteState) pads ?buf"
    and len: "length pads = count_list ?buf NL"
    and sp: "\<forall>pad \<in> set pads. set pad \<subseteq> {SP}"
    and fin: "measureText plainExt (lastLine ?buf) \<noteq> 0 \<longrightarrow> \<not> atNewline r'"
    by blast
  from len obtain pad where pads: "pads = [pad]"
    by (cases pads) auto
  have facts: "linePrefix quoteState = ''> ''" "linePrefix (markStale quoteState) = ''> ''"
    "atNewline quoteState" "measureText plainExt ''ab'' \<noteq> 0" "measureText plainExt ''cd'' \<noteq> 0"
    "lastLine ?buf = ''cd''"
    by (simp_all add: model_defs lastLine_def)
  from out pads facts have "w' = ''> ab'' @ pad @ [NL] @ ''> cd''" by simp
  moreover from sp pads have "set pad \<subseteq> {SP}" by simp
  moreover from fin facts have "\<not> atNewline r'" by simp
  ultimately show ?thesis using res by blast
qed

section \<open>The span tree\<close>

subsection \<open>Opening and closing a span\<close>





















text \<open>A step that leaves the tree and the stack alone and moves the counter forward.\<close>

lemma keeps_refl [simp]: "keeps r r"
  by (simp add: keeps_def)



subsection \<open>Steps that may panic\<close>

lemma post_Inr [simp]: "post (Inr x) Q = Q x"
  by (simp add: post_def)

lemma post_Inl [simp]: "post (Inl p) Q"
  by (simp add: post_def)

lemma post_bindR: "post m (\<lambda>x. post (f x) Q) \<Longrightarrow> post (bindR m f) Q"
  by (cases m) (simp_all add: bindR_def)

lemma post_discard: "post m (\<lambda>(n, x). Q x) \<Longrightarrow> post (discard m) Q"
  by (cases m) (auto simp: discard_def bindR_def)

lemma post_continue: "post m (\<lambda>(r, w). Q (False, r, w)) \<Longrightarrow> post (continue m) Q"
  by (cases m) (auto simp: continue_def bindR_def)

lemma post_case: "post m (\<lambda>x. post (f x) Q) \<Longrightarrow> post (case m of Inl p \<Rightarrow> Inl p | Inr x \<Rightarrow> f x) Q"
  by (cases m) simp_all

lemma post_D: "post m Q \<Longrightarrow> m = Inr x \<Longrightarrow> Q x"
  by simp

lemma post_I: "(\<And>x. m = Inr x \<Longrightarrow> Q x) \<Longrightarrow> post m Q"
  by (cases m) simp_all


lemmas post_steps = post_bindR post_discard post_continue post_case

subsection \<open>What a write leaves alone\<close>

lemma core_update [simp]:
  "core (r\<lparr>openBlocks := a\<rparr>) = core r"
  "core (r\<lparr>wordBuffer := b\<rparr>) = core r"
  "core (r\<lparr>lineWidth := c\<rparr>) = core r"
  "core (r\<lparr>atNewline := d\<rparr>) = core r"
  "core (r\<lparr>byteOffset := e\<rparr>) = core r"
  by (simp_all add: core_def)

lemma wrote_refl [simp]: "wrote r r"
  by (simp add: wrote_def)

lemma wrote_trans: "wrote a b \<Longrightarrow> wrote b c \<Longrightarrow> wrote a c"
  by (simp add: wrote_def)

lemma core_fields:
  assumes "core r' = core r"
  shows "theme r' = theme r" and "wordWrap r' = wordWrap r" and "hyperlinks r' = hyperlinks r"
    and "softBreak r' = softBreak r" and "listStack r' = listStack r"
    and "tableStack r' = tableStack r" and "wrapping r' = wrapping r"
    and "spanStack r' = spanStack r" and "lastSpan r' = lastSpan r" and "rootSpan r' = rootSpan r"
    and "styles r' = styles r" and "prefixStack r' = prefixStack r" and "prefix r' = prefix r"
    and "inImage r' = inImage r" and "spans r' = spans r" and "images r' = images r"
  using arg_cong [OF assms, of theme] arg_cong [OF assms, of wordWrap]
    arg_cong [OF assms, of hyperlinks] arg_cong [OF assms, of softBreak]
    arg_cong [OF assms, of listStack] arg_cong [OF assms, of tableStack]
    arg_cong [OF assms, of wrapping] arg_cong [OF assms, of spanStack]
    arg_cong [OF assms, of lastSpan] arg_cong [OF assms, of rootSpan]
    arg_cong [OF assms, of styles] arg_cong [OF assms, of prefixStack]
    arg_cong [OF assms, of prefix] arg_cong [OF assms, of inImage] arg_cong [OF assms, of spans]
    arg_cong [OF assms, of images]
  by (simp_all add: core_def)


lemma writeStep_wrote: "writeStep E r w buf = Inr (r', w') \<Longrightarrow> wrote r r'"
  by (auto simp: writeStep_def Let_def markStale_def beginLine_def wrote_def
      split: if_splits sum.splits prod.splits)

lemma write'_wrote: "write' E r w buf written = Inr (n, r', w') \<Longrightarrow> wrote r r'"
proof (induction E r w buf written rule: write'.induct)
  case (1 E r w buf written)
  show ?case
  proof (cases "buf = []")
    case True
    with "1.prems" show ?thesis by (simp add: write'.simps)
  next
    case False
    with "1.prems" obtain r1 w1 where st: "writeStep E r w buf = Inr (r1, w1)"
      and rec: "write' E r1 w1 (drop (stepLen buf) buf) (written + lineLen buf) = Inr (n, r', w')"
      by (subst (asm) write'.simps) (auto split: sum.splits)
    from "1.IH" [OF False st refl rec] writeStep_wrote [OF st] show ?thesis
      by (rule_tac wrote_trans)
  qed
qed

lemma write'_post:
  assumes "\<And>n r' w'. wrote r r' \<Longrightarrow> Q (n, r', w')"
  shows "post (write' E r w buf written) Q"
  by (rule post_I) (auto intro: assms dest: write'_wrote)

lemma flushWordBuffer_wrote: "flushWordBuffer E r w = Inr (r', w') \<Longrightarrow> wrote r r'"
proof -
  have "post (flushWordBuffer E r w) (\<lambda>(r', w'). wrote r r')"
    unfolding flushWordBuffer_def Let_def
    by (auto intro!: post_steps write'_post simp: wrote_def)
  then show "flushWordBuffer E r w = Inr (r', w') \<Longrightarrow> wrote r r'"
    by (auto dest: post_D)
qed

lemma flushWordBuffer_post:
  assumes "\<And>r' w'. wrote r r' \<Longrightarrow> Q (r', w')"
  shows "post (flushWordBuffer E r w) Q"
  by (rule post_I) (auto intro: assms dest: flushWordBuffer_wrote)

lemma wrapStep_wrote: "wrapStep E r w buf = Inr (r', w') \<Longrightarrow> wrote r r'"
proof -
  have "post (wrapStep E r w buf) (\<lambda>(r', w'). wrote r r')"
    unfolding wrapStep_def Let_def
    by (auto intro!: post_steps write'_post flushWordBuffer_post simp: wrote_def)
  then show "wrapStep E r w buf = Inr (r', w') \<Longrightarrow> wrote r r'"
    by (auto dest: post_D)
qed

lemma wrapLoop_wrote: "wrapLoop E r w buf written = Inr (n, r', w') \<Longrightarrow> wrote r r'"
proof (induction E r w buf written rule: wrapLoop.induct)
  case (1 E r w buf written)
  show ?case
  proof (cases "buf = []")
    case True
    with "1.prems" show ?thesis by (simp add: wrapLoop.simps)
  next
    case False
    with "1.prems" obtain r1 w1 where st: "wrapStep E r w buf = Inr (r1, w1)"
      and rec: "wrapLoop E r1 w1 (drop (runeLen buf) buf) (written + runeLen buf) = Inr (n, r', w')"
      by (subst (asm) wrapLoop.simps) (auto split: sum.splits)
    from "1.IH" [OF False st refl rec] wrapStep_wrote [OF st] show ?thesis
      by (rule_tac wrote_trans)
  qed
qed

lemma Write_wrote: "Write E r w buf = Inr (n, r', w') \<Longrightarrow> wrote r r'"
proof -
  have "post (Write E r w buf) (\<lambda>(n, r', w'). wrote r r')"
    unfolding Write_def
    by (auto intro!: post_steps write'_post flushWordBuffer_post post_I [of "wrapLoop E r w buf 0"]
        simp: wrote_def dest: wrapLoop_wrote)
  then show "Write E r w buf = Inr (n, r', w') \<Longrightarrow> wrote r r'"
    by (auto dest: post_D)
qed

lemma Write_post:
  assumes "\<And>n r' w'. wrote r r' \<Longrightarrow> Q (n, r', w')"
  shows "post (Write E r w buf) Q"
  by (rule post_I) (auto intro: assms dest: Write_wrote)

lemma WriteString_post:
  assumes "\<And>n r' w'. wrote r r' \<Longrightarrow> Q (n, r', w')"
  shows "post (WriteString E r w buf) Q"
  unfolding WriteString_def by (rule Write_post) (rule assms)

lemma WriteRune_post:
  assumes "\<And>n r' w'. wrote r r' \<Longrightarrow> Q (n, r', w')"
  shows "post (WriteRune E r w c) Q"
  unfolding WriteRune_def by (rule Write_post) (rule assms)


lemma writeSGR_post:
  assumes "\<And>r' w'. wrote r r' \<Longrightarrow> Q (r', w')"
  shows "post (writeSGR E r w c) Q"
  unfolding writeSGR_def by (auto intro!: post_discard Write_post assms)

lemma writeSGRs_wrote: "writeSGRs E r w cs = Inr (r', w') \<Longrightarrow> wrote r r'"
proof (induction cs arbitrary: r w)
  case Nil
  then show ?case by simp
next
  case (Cons c cs)
  from Cons.prems obtain r1 w1 where st: "writeSGR E r w c = Inr (r1, w1)"
    and rec: "writeSGRs E r1 w1 cs = Inr (r', w')"
    by (auto split: sum.splits)
  from post_D [OF writeSGR_post st, of "\<lambda>(r', w'). wrote r r'"] have "wrote r r1" by simp
  with Cons.IH [OF rec] show ?case by (rule_tac wrote_trans)
qed


subsection \<open>The invariant along the render functions\<close>

lemma spanInv_update [simp]:
  "spanInv (r\<lparr>listStack := a\<rparr>) = spanInv r"
  "spanInv (r\<lparr>tableStack := b\<rparr>) = spanInv r"
  "spanInv (r\<lparr>openBlocks := c\<rparr>) = spanInv r"
  "spanInv (r\<lparr>wrapping := d\<rparr>) = spanInv r"
  "spanInv (r\<lparr>styles := e\<rparr>) = spanInv r"
  "spanInv (r\<lparr>prefixStack := f\<rparr>) = spanInv r"
  "spanInv (r\<lparr>prefix := g\<rparr>) = spanInv r"
  "spanInv (r\<lparr>atNewline := h\<rparr>) = spanInv r"
  "spanInv (r\<lparr>inImage := i\<rparr>) = spanInv r"
  "spanInv (r\<lparr>images := j\<rparr>) = spanInv r"
  by (simp_all add: spanInv_def stackOK_def boundsOK_def childrenOK_def orderOK_def effEnd_def)

lemma idle_update [simp]:
  "idle (r\<lparr>listStack := a\<rparr>) = idle r"
  "idle (r\<lparr>tableStack := b\<rparr>) = idle r"
  "idle (r\<lparr>openBlocks := c\<rparr>) = idle r"
  "idle (r\<lparr>wrapping := d\<rparr>) = idle r"
  "idle (r\<lparr>styles := e\<rparr>) = idle r"
  "idle (r\<lparr>prefixStack := f\<rparr>) = idle r"
  "idle (r\<lparr>prefix := g\<rparr>) = idle r"
  "idle (r\<lparr>atNewline := h\<rparr>) = idle r"
  by (simp_all add: idle_def)

lemma OpenSpan_inImage [simp]:
  "inImage (OpenSpan r nd) = inImage r" "images (OpenSpan r nd) = images r"
  "hyperlinks (OpenSpan r nd) = hyperlinks r"
  by (simp_all add: OpenSpan_def Let_def split: option.splits prod.splits)



lemma OpenSpan_update [simp]:
  "OpenSpan (r\<lparr>listStack := a\<rparr>) nd = (OpenSpan r nd)\<lparr>listStack := a\<rparr>"
  "OpenSpan (r\<lparr>prefixStack := f\<rparr>) nd = (OpenSpan r nd)\<lparr>prefixStack := f\<rparr>"
  "OpenSpan (r\<lparr>prefix := g\<rparr>) nd = (OpenSpan r nd)\<lparr>prefix := g\<rparr>"
  "OpenSpan (r\<lparr>wrapping := d\<rparr>) nd = (OpenSpan r nd)\<lparr>wrapping := d\<rparr>"
  "OpenSpan (r\<lparr>atNewline := h\<rparr>) nd = (OpenSpan r nd)\<lparr>atNewline := h\<rparr>"
  by (simp_all add: OpenSpan_def Let_def split: option.splits prod.splits)

















































































subsection \<open>The walk\<close>








section \<open>Pushing a style and popping it\<close>

lemma resolveStyle_not_zero: "\<not> IsZero s \<Longrightarrow> \<not> IsZero (resolveStyle base s)"
  by (auto simp: IsZero_def resolveStyle_def)

lemma applySGRs_append: "applySGRs (a @ b) t = applySGRs b (applySGRs a t)"
  by (simp add: applySGRs_def)

lemma applySGRs_optional:
  "applySGRs (if c then [SgrBackground x y z] else []) t = t\<lparr>bg := (if c then Some (x, y, z) else bg t)\<rparr>"
  "applySGRs (if c then [SgrForeground x y z] else []) t = t\<lparr>fg := (if c then Some (x, y, z) else fg t)\<rparr>"
  "applySGRs (if c then [SgrBold on] else []) t = t\<lparr>bold := (if c then on else bold t)\<rparr>"
  "applySGRs (if c then [SgrUnderline on] else []) t = t\<lparr>underline := (if c then on else underline t)\<rparr>"
  "applySGRs (if c then [SgrItalic on] else []) t = t\<lparr>italic := (if c then on else italic t)\<rparr>"
  by (simp_all add: applySGRs_def)

lemma delta_effect:
  assumes "\<not> IsZero new"
  shows "applySGRs (deltaSGR base new) t =
     t\<lparr>bg := (if IsSet (Background new) \<and> (IsZero base \<or> Background new \<noteq> Background base)
                then Some (rgb (Background new)) else bg t),
        fg := (if IsSet (Colour new) \<and> (IsZero base \<or> Colour new \<noteq> Colour base)
                then Some (rgb (Colour new)) else fg t),
        bold := (if IsZero base \<or> Bold new \<noteq> Bold base then Bold new = Yes else bold t),
        underline := (if IsZero base \<or> Underline new \<noteq> Underline base
                       then Underline new = Yes else underline t),
        italic := (if IsZero base \<or> Italic new \<noteq> Italic base then Italic new = Yes else italic t)\<rparr>"
  unfolding deltaSGR_def if_not_P [OF assms] applySGRs_append applySGRs_optional rgb_def
  by (simp split del: if_split cong: if_cong)

lemma delta_round_trip:
  assumes nz: "\<not> IsZero new" and d: "displays t base" and c: "coloursWithin new base"
  shows "applySGRs (deltaSGR base new @ deltaSGR new base) t = t"
proof (cases "IsZero base")
  case True
  with d have "t = plain" by (simp add: displays_def)
  with True show ?thesis
    by (simp add: applySGRs_def deltaSGR_def)
next
  case False
  from d False have d': "bold t = (Bold base = Yes)" "underline t = (Underline base = Yes)"
    "italic t = (Italic base = Yes)" "IsSet (Colour base) \<Longrightarrow> fg t = Some (rgb (Colour base))"
    "IsSet (Background base) \<Longrightarrow> bg t = Some (rgb (Background base))"
    by (simp_all add: displays_def)
  from c False have c': "IsSet (Colour new) \<Longrightarrow> IsSet (Colour base)"
    "IsSet (Background new) \<Longrightarrow> IsSet (Background base)"
    by (simp_all add: coloursWithin_def)
  show ?thesis
    unfolding applySGRs_append delta_effect [OF nz] delta_effect [OF False]
    apply (rule terminal.equality)
    using d' c' apply (auto simp: IsSet_def)
    done
qed

lemma writeDelta_frame:
  assumes "writeDelta E r w base new = Inr (r', w')"
  shows "styles r' = styles r" and "theme r' = theme r"
proof -
  from assms have "wrote r r'"
    unfolding writeDelta_def by (rule writeSGRs_wrote)
  then have "core r' = core r" by (simp add: wrote_def)
  then show "styles r' = styles r" and "theme r' = theme r"
    by (rule core_fields)+
qed

lemma new_top_after_push:
  "(if length (ss @ [s]) > 1 then (ss @ [s]) ! (length (ss @ [s]) - 2) else zeroStyle) = topStyle ss"
proof (cases "ss = []")
  case True
  then show ?thesis by (simp add: topStyle_def)
next
  case False
  then have "length ss - Suc 0 < length ss" by (cases ss) simp_all
  with False show ?thesis
    by (simp add: topStyle_def nth_append last_conv_nth)
qed

lemmas style_defs = boldStyle_def redStyle_def redBold_def blueStyle_def styled_def pushPop_def
  plain_def rgb_def displays_def coloursWithin_def applySGRs_def

lemma bindR_Inr_D: "bindR m f = Inr y \<Longrightarrow> \<exists>x. m = Inr x \<and> f x = Inr y"
  by (cases m) (simp_all add: bindR_def)

text \<open>
  \<^verbatim>\<open>PushStyle\<close> returns before it pushes when the theme's entry for the token is the
  zero style, and \<^verbatim>\<open>PopStyle\<close> pops all the same: the pair then removes the style
  that was on the stack before.
\<close>

lemma unstyled_token_pops_enclosing_style:
  "map_sum id (\<lambda>(r, w). (w, styles r)) (pushPop plainExt (styled [boldStyle] zeroStyle) [] GenericEmph)
     = Inr (ESC # ''[0m'', [])"
  by (simp add: model_defs style_defs)

text \<open>
  C4. The claim: for any style stack, theme and token, \<^verbatim>\<open>PushStyle\<close> followed at once
  by \<^verbatim>\<open>PopStyle\<close> leaves the stack as it was, and the deltas written take the
  terminal back to the attributes it had. \<^verbatim>\<open>writeDelta\<close> writes a colour only when
  the new style sets one, and no command of the renderer sets a colour back to the
  terminal's default. Here the stack holds a bold style with no colour and the token's
  style is red: the push writes the red foreground, the pop writes nothing, and a
  terminal that showed bold text in its default colour is left showing bold red.
\<close>

theorem colour_not_restored_after_pop:
  "map_sum id (\<lambda>(r, w). (w, styles r)) (pushPop plainExt (styled [boldStyle] redStyle) [] GenericEmph)
     = Inr (ESC # ''[38;2;255;0;0m'', [boldStyle])
   \<and> displays (plain\<lparr>bold := True\<rparr>) boldStyle
   \<and> applySGRs (deltaSGR boldStyle (resolveStyle boldStyle redStyle)
                 @ deltaSGR (resolveStyle boldStyle redStyle) boldStyle) (plain\<lparr>bold := True\<rparr>)
     = plain\<lparr>bold := True, fg := Some (255, 0, 0)\<rparr>"
  by (simp add: model_defs style_defs)

text \<open>
  C4, amended. Let the theme's entry for the token not be the zero style (with no
  theme both calls do nothing). Then the pop leaves the stack as it was before the
  push; the push writes the delta from the top of the stack (the zero style when the
  stack is empty) to the token's style, and the pop writes the delta back; and the two
  deltas take a terminal that shows the old top back to the attributes it had, when
  each colour the token's style sets is one the old top sets too, or the old top is the
  zero style (the pop is then a reset).
\<close>

theorem push_pop_round_trip:
  assumes tok: "\<forall>th. theme r = Some th \<longrightarrow> \<not> IsZero (th token)"
    and push: "PushStyle E r w token = Inr (r1, w1)"
    and pop: "PopStyle E r1 w1 = Inr (r2, w2)"
  shows "styles r2 = styles r
    \<and> (case theme r of
          None \<Rightarrow> r2 = r \<and> w2 = w
        | Some th \<Rightarrow>
            (let base = topStyle (styles r); new = resolveStyle base (th token) in
             (\<exists>ra. writeDelta E r w base new = Inr (ra, w1) \<and> r1 = ra\<lparr>styles := styles r @ [new]\<rparr>)
             \<and> (\<exists>rb. writeDelta E r1 w1 new base = Inr (rb, w2) \<and> r2 = rb\<lparr>styles := styles r\<rparr>)
             \<and> (displays t base \<and> coloursWithin new base
                  \<longrightarrow> applySGRs (deltaSGR base new @ deltaSGR new base) t = t)))"
proof (cases "theme r")
  case None
  with push have "r1 = r" "w1 = w" by (simp_all add: PushStyle_def)
  with pop None show ?thesis by (simp add: PopStyle_def)
next
  case (Some th)
  define base where "base = topStyle (styles r)"
  define new where "new = resolveStyle base (th token)"
  from tok Some have nz: "\<not> IsZero (th token)" by simp
  then have nz': "\<not> IsZero new"
    unfolding new_def by (rule resolveStyle_not_zero)
  from push Some nz obtain ra where
    wa: "writeDelta E r w base new = Inr (ra, w1)" and r1: "r1 = ra\<lparr>styles := styles ra @ [new]\<rparr>"
    by (auto simp: PushStyle_def Let_def bindR_def base_def new_def split: sum.splits)
  note fa = writeDelta_frame [OF wa]
  from r1 fa Some have s1: "styles r1 = styles r @ [new]" and t1: "theme r1 = Some th"
    by simp_all
  have top: "(if length (styles r1) > 1 then styles r1 ! (length (styles r1) - 2) else zeroStyle) = base"
    unfolding s1 base_def by (rule new_top_after_push)
  from s1 have lst: "last (styles r1) = new" "styles r1 \<noteq> []" by simp_all
  from pop have "bindR (writeDelta E r1 w1 new base)
      (\<lambda>(rb, wb). if styles rb = [] then Inl IndexOutOfRange
                    else Inr (rb\<lparr>styles := butlast (styles rb)\<rparr>, wb)) = Inr (r2, w2)"
    unfolding PopStyle_def Let_def t1 top option.case lst(1) if_not_P [OF lst(2)] .
  then obtain rb where
    wb: "writeDelta E r1 w1 new base = Inr (rb, w2)" and r2: "r2 = rb\<lparr>styles := butlast (styles rb)\<rparr>"
    by (auto simp: bindR_def split: sum.splits if_splits)
  note fb = writeDelta_frame [OF wb]
  from r2 fb s1 have s2: "r2 = rb\<lparr>styles := styles r\<rparr>" by simp
  have "displays t base \<and> coloursWithin new base
        \<longrightarrow> applySGRs (deltaSGR base new @ deltaSGR new base) t = t"
    using delta_round_trip [OF nz'] by blast
  with wa r1 fa wb s2 Some show ?thesis
    by (simp add: Let_def base_def [symmetric] new_def [symmetric])
qed

text \<open>A red bold style on the stack and a blue token: blue is written, then red again.\<close>

theorem push_pop_witness:
  "map_sum id (\<lambda>(r, w). (w, styles r)) (pushPop plainExt (styled [redBold] blueStyle) [] GenericEmph)
     = Inr (ESC # ''[38;2;0;0;255m'' @ ESC # ''[38;2;255;0;0m'', [redBold])
   \<and> applySGRs (deltaSGR redBold (resolveStyle redBold blueStyle)
                 @ deltaSGR (resolveStyle redBold blueStyle) redBold)
        (plain\<lparr>fg := Some (255, 0, 0), bold := True\<rparr>)
     = plain\<lparr>fg := Some (255, 0, 0), bold := True\<rparr>"
proof -
  let ?r = "styled [redBold] blueStyle"
  let ?t = "plain\<lparr>fg := Some (255, 0, 0), bold := True\<rparr>"
  have out: "map_sum id (\<lambda>(r, w). w) (pushPop plainExt ?r [] GenericEmph)
      = Inr (ESC # ''[38;2;0;0;255m'' @ ESC # ''[38;2;255;0;0m'')"
    by (simp add: model_defs style_defs)
  then obtain r2 w2 where both: "pushPop plainExt ?r [] GenericEmph = Inr (r2, w2)"
    by (cases "pushPop plainExt ?r [] GenericEmph") auto
  then obtain r1 w1 where push: "PushStyle plainExt ?r [] GenericEmph = Inr (r1, w1)"
    and pop: "PopStyle plainExt r1 w1 = Inr (r2, w2)"
    unfolding pushPop_def by (auto dest!: bindR_Inr_D)
  have tok: "\<forall>th. theme ?r = Some th \<longrightarrow> \<not> IsZero (th GenericEmph)"
    by (simp add: model_defs style_defs)
  have th: "theme ?r = Some (\<lambda>token. blueStyle)" and ss: "styles ?r = [redBold]"
    by (simp_all add: styled_def New_def)
  have hyp: "displays ?t (topStyle (styles ?r))
      \<and> coloursWithin (resolveStyle (topStyle (styles ?r)) blueStyle) (topStyle (styles ?r))"
    by (simp add: model_defs style_defs)
  from push_pop_round_trip [OF tok push pop, of ?t] hyp
  have "styles r2 = [redBold]"
    and "applySGRs (deltaSGR redBold (resolveStyle redBold blueStyle)
                 @ deltaSGR (resolveStyle redBold blueStyle) redBold) ?t = ?t"
    unfolding th ss by (simp_all add: Let_def topStyle_def)
  with out both show ?thesis by simp
qed

end
